theory Spec2Isabelle
  imports Main "HOL-Library.Product_Order"
begin

section \<open>Half edges, errors and saddle connections\<close>

text \<open>
  A half edge is a signed non-zero integer; its negation is the opposite half edge.
  \<^verbatim>\<open>CHECK_ARGUMENT\<close> raises an invalid-argument error, \<^verbatim>\<open>ASSERT\<close> an
  invariant violation, and the area of a surface with boundary is not implemented;
  all three are values of the model.
\<close>

type_synonym halfedge = int

datatype error = InvalidArgument | InvariantViolated | NotImplemented

section \<open>Flat triangulation (flat\_triangulation.cc)\<close>

text \<open>
  Modelled from the spec: \<^verbatim>\<open>HalfEdgeMap<T>::set\<close> of the flat triangulation's
  vector map (half\_edge\_map.hpp is not among the sources). The spec says that
  after storing the value of \<open>e\<close> the value of \<open>-e\<close> is derived as its negation.
\<close>

definition odd_set :: "(halfedge \<Rightarrow> 'v::ab_group_add) \<Rightarrow> halfedge \<Rightarrow> 'v \<Rightarrow> (halfedge \<Rightarrow> 'v)" where
  "odd_set m e v = (m(e := v))(- e := - v)"

text \<open>
  \<^verbatim>\<open>updateAfterFlip(map, halfEdge, parent)\<close>: the two reads happen before the
  write; \<open>nextInFace\<close> and \<open>nextAtVertex\<close> are the permutations of the parent
  after the combinatorial flip.
\<close>

definition flat_updateAfterFlip ::
  "(halfedge \<Rightarrow> halfedge) \<Rightarrow> (halfedge \<Rightarrow> halfedge) \<Rightarrow> (halfedge \<Rightarrow> 'v::ab_group_add) \<Rightarrow> halfedge
    \<Rightarrow> (halfedge \<Rightarrow> 'v)" where
  "flat_updateAfterFlip nextInFace nextAtVertex m halfEdge =
     odd_set m halfEdge (m (- nextInFace halfEdge) + m (nextAtVertex halfEdge))"

record 'v flat_triangulation =
  flat_halfEdges :: "halfedge list"
  flat_nextInFace :: "halfedge \<Rightarrow> halfedge"
  flat_vectors :: "halfedge \<Rightarrow> 'v"

text \<open>The loop of the constructor that checks that every face is closed.\<close>

fun faces_closed :: "(halfedge \<Rightarrow> halfedge) \<Rightarrow> (halfedge \<Rightarrow> 'v::ab_group_add) \<Rightarrow> halfedge list \<Rightarrow> error + unit" where
  "faces_closed nf vs [] = Inr ()"
| "faces_closed nf vs (edge # rest) =
     (let zero = vs edge;
          edge1 = nf edge;
          zero1 = zero + vs edge1;
          edge2 = nf edge1;
          zero2 = zero1 + vs edge2
      in if zero2 \<noteq> 0 then Inl InvalidArgument else faces_closed nf vs rest)"

definition FlatTriangulation ::
  "halfedge list \<Rightarrow> (halfedge \<Rightarrow> halfedge) \<Rightarrow> (halfedge \<Rightarrow> 'v::ab_group_add) \<Rightarrow> error + 'v flat_triangulation" where
  "FlatTriangulation hes nf vs =
     (case faces_closed nf vs hes of
        Inl err \<Rightarrow> Inl err
      | Inr _ \<Rightarrow> Inr \<lparr>flat_halfEdges = hes, flat_nextInFace = nf, flat_vectors = vs\<rparr>)"

section \<open>Vectors and sectors (saddle\_connections.cc)\<close>

text \<open>
  Modelled from the spec: the operations of \<^verbatim>\<open>Vector\<close> (vector.cc is not among
  the sources). \<open>ccw\<close> is the sign of the cross product and \<open>orientation\<close> the
  sign of the dot product.
\<close>

datatype CCW = CLOCKWISE | COLLINEAR | COUNTERCLOCKWISE
datatype ORIENTATION = SAME | OPPOSITE | ORTHOGONAL

definition cross :: "'r::comm_ring \<times> 'r \<Rightarrow> 'r \<times> 'r \<Rightarrow> 'r" where
  "cross u v = fst u * snd v - snd u * fst v"

definition dot :: "'r::comm_ring \<times> 'r \<Rightarrow> 'r \<times> 'r \<Rightarrow> 'r" where
  "dot u v = fst u * fst v + snd u * snd v"

definition ccw :: "'r::linordered_idom \<times> 'r \<Rightarrow> 'r \<times> 'r \<Rightarrow> CCW" where
  "ccw u v = (if 0 < cross u v then COUNTERCLOCKWISE else if cross u v < 0 then CLOCKWISE else COLLINEAR)"

definition orientation :: "'r::linordered_idom \<times> 'r \<Rightarrow> 'r \<times> 'r \<Rightarrow> ORIENTATION" where
  "orientation u v = (if 0 < dot u v then SAME else if dot u v < 0 then OPPOSITE else ORTHOGONAL)"

text \<open>
  Modelled from the spec: \<open>v.inSector(begin, end)\<close> holds iff \<open>v\<close> lies in the
  half-open angular interval from \<open>begin\<close> (inclusive) counter-clockwise to
  \<open>end\<close> (exclusive), and fails with an invalid-argument error on a zero vector.
  For \<open>begin\<close> and \<open>end\<close> on one ray the interval is that ray, as the tests
  require (\<open>v.inSector(v, v)\<close> holds); an interval of more than a half turn is the
  complement of the interval from \<open>end\<close> to \<open>begin\<close>.
\<close>

definition in_interval :: "'r::linordered_idom \<times> 'r \<Rightarrow> 'r \<times> 'r \<Rightarrow> 'r \<times> 'r \<Rightarrow> bool" where
  "in_interval v b e =
     (case ccw b e of
        COUNTERCLOCKWISE \<Rightarrow> ccw b v \<noteq> CLOCKWISE \<and> ccw v e = COUNTERCLOCKWISE
      | CLOCKWISE \<Rightarrow> \<not> (ccw e v \<noteq> CLOCKWISE \<and> ccw v b = COUNTERCLOCKWISE)
      | COLLINEAR \<Rightarrow>
          (case orientation b e of
             SAME \<Rightarrow> ccw b v = COLLINEAR \<and> orientation b v = SAME
           | OPPOSITE \<Rightarrow> ccw b v = COUNTERCLOCKWISE \<or> (ccw b v = COLLINEAR \<and> orientation b v = SAME)
           | ORTHOGONAL \<Rightarrow> False))"

definition inSector :: "'r::linordered_idom \<times> 'r \<Rightarrow> 'r \<times> 'r \<Rightarrow> 'r \<times> 'r \<Rightarrow> error + bool" where
  "inSector v b e =
     (if v = (0, 0) \<or> b = (0, 0) \<or> e = (0, 0) then Inl InvalidArgument else Inr (in_interval v b e))"

text \<open>
  A sector of a query: the half edge at which it is anchored and, once refined,
  its two bounding vectors. \<^verbatim>\<open>Sector(he)\<close> is the whole corner at \<open>he\<close>.
\<close>

record 'r sector =
  sector_source :: halfedge
  sector_bounds :: "(('r \<times> 'r) \<times> ('r \<times> 'r)) option"

definition Sector :: "halfedge \<Rightarrow> 'r \<times> 'r \<Rightarrow> 'r \<times> 'r \<Rightarrow> 'r sector" where
  "Sector src b e = \<lparr>sector_source = src, sector_bounds = Some (b, e)\<rparr>"

definition SectorOf :: "halfedge \<Rightarrow> 'r sector" where
  "SectorOf he = \<lparr>sector_source = he, sector_bounds = None\<rparr>"

text \<open>The two lambdas of \<^verbatim>\<open>Sector::refine\<close> and the method itself.\<close>

definition inSectorExclusive :: "'r::linordered_idom \<times> 'r \<Rightarrow> 'r \<times> 'r \<Rightarrow> 'r \<times> 'r \<Rightarrow> error + bool" where
  "inSectorExclusive v b e =
     (case inSector v b e of
        Inl err \<Rightarrow> Inl err
      | Inr r \<Rightarrow> Inr (r \<and> \<not> (ccw v b = COLLINEAR \<and> orientation v b = SAME)))"

definition refine ::
  "(halfedge \<Rightarrow> 'r::linordered_idom \<times> 'r) \<Rightarrow> (halfedge \<Rightarrow> halfedge) \<Rightarrow> 'r sector
     \<Rightarrow> 'r \<times> 'r \<Rightarrow> 'r \<times> 'r \<Rightarrow> error + 'r sector list" where
  "refine fromEdge nextAtVertex this sectorBegin sectorEnd =
     (let src = sector_source this;
          sector = (case sector_bounds this of
                      Some p \<Rightarrow> p
                    | None \<Rightarrow> (fromEdge src, fromEdge (nextAtVertex src)))
      in if ccw (fst sector) (fromEdge src) = CLOCKWISE then Inl InvariantViolated
         else if ccw (snd sector) (fromEdge src) = COUNTERCLOCKWISE then Inl InvariantViolated
         else
           (case inSector sectorBegin (fst sector) (snd sector) of
              Inl err \<Rightarrow> Inl err
            | Inr True \<Rightarrow>
                if ccw sectorBegin sectorEnd = CLOCKWISE then
                  (let fromBegin = Sector src sectorBegin (snd sector);
                       toEnd = Sector src (fst sector) sectorEnd
                   in if ccw (fst sector) sectorEnd = COUNTERCLOCKWISE
                      then Inr [fromBegin, toEnd] else Inr [fromBegin])
                else
                  (case inSector sectorEnd (fst sector) (snd sector) of
                     Inl err \<Rightarrow> Inl err
                   | Inr True \<Rightarrow> Inr [Sector src sectorBegin sectorEnd]
                   | Inr False \<Rightarrow> Inr [Sector src sectorBegin (snd sector)])
            | Inr False \<Rightarrow>
                (case inSectorExclusive sectorEnd (fst sector) (snd sector) of
                   Inl err \<Rightarrow> Inl err
                 | Inr True \<Rightarrow> Inr [Sector src (fst sector) sectorEnd]
                 | Inr False \<Rightarrow>
                     (case inSector (fst sector) sectorBegin sectorEnd of
                        Inl err \<Rightarrow> Inl err
                      | Inr True \<Rightarrow> Inr [this]
                      | Inr False \<Rightarrow> Inr []))))"

text \<open>\<^verbatim>\<open>Sector::contains\<close>, for a connection given by its source and its vector.\<close>

definition contains_connection :: "'r::linordered_idom sector \<Rightarrow> halfedge \<Rightarrow> 'r \<times> 'r \<Rightarrow> error + bool" where
  "contains_connection this src v =
     (if src \<noteq> sector_source this then Inr False
      else case sector_bounds this of
             None \<Rightarrow> Inr True
           | Some (first, second) \<Rightarrow> inSector v first second)"

text \<open>
  \<open>v\<close> lies on the ray of \<open>b\<close>; a list of sectors selects a connection when
  one of them contains it.
\<close>

definition on_ray :: "'r::linordered_idom \<times> 'r \<Rightarrow> 'r \<times> 'r \<Rightarrow> bool" where
  "on_ray v b = (ccw b v = COLLINEAR \<and> orientation b v = SAME)"

definition selects :: "'r::linordered_idom sector list \<Rightarrow> halfedge \<Rightarrow> 'r \<times> 'r \<Rightarrow> bool" where
  "selects ss src v = list_ex (\<lambda>s. contains_connection s src v = Inr True) ss"

section \<open>Saddle connection queries (saddle\_connections.cc)\<close>

text \<open>
  The implementation object of a query: the search radius, if one has been set,
  and the selected sectors. \<^verbatim>\<open>bound\<close> copies the implementation and lowers the
  radius.
\<close>

record ('b, 's) saddle_connections =
  searchRadius :: "'b option"
  sectors :: "'s list"

definition bound :: "'b::linorder \<Rightarrow> ('b, 's) saddle_connections \<Rightarrow> ('b, 's) saddle_connections" where
  "bound r q =
     q\<lparr>searchRadius := (case searchRadius q of Some old \<Rightarrow> Some (min old r) | None \<Rightarrow> Some r)\<rparr>"

section \<open>Collapsed flat triangulation (flat\_triangulation\_collapsed.cc)\<close>

text \<open>
  The surface as the update hooks see it: the half edges, the face permutation
  and its inverse, and the two tracking stores \<^verbatim>\<open>vectors\<close> and
  \<^verbatim>\<open>collapsedHalfEdges\<close> (the list of connections hidden in each half edge).
\<close>

record 'c collapsed =
  halfEdges :: "halfedge list"
  nextInFace :: "halfedge \<Rightarrow> halfedge"
  previousInFace :: "halfedge \<Rightarrow> halfedge"
  vectors :: "halfedge \<Rightarrow> 'c"
  collapsedHalfEdges :: "halfedge \<Rightarrow> 'c list"

text \<open>
  The parts of the repository that the collapsed triangulation calls and that are
  not among the sources are parameters of the model. For saddle connections
  (type \<open>'c\<close>): the constructor \<^verbatim>\<open>SaddleConnection(surface, source, target, chain)\<close>,
  the accessors, the conversions to a chain (type \<open>'v\<close>) and to a vector
  (type \<open>'w\<close>), the negation, \<^verbatim>\<open>fromEdge\<close> on the original surface and
  the consistency check. For \<^verbatim>\<open>Vertical\<close>: its predicates and components
  (coordinates of type \<open>'r\<close>). Further the area of a triangle and of the
  original surface, the boundary predicate, the permutation updates of the
  combinatorial flip and collapse, and the two hooks of the
  \<^verbatim>\<open>CollapsedHalfEdge\<close> store.
\<close>

record ('c, 'v, 'w, 'r) collaborators =
  SaddleConnection :: "halfedge \<Rightarrow> halfedge \<Rightarrow> 'v \<Rightarrow> 'c"
  source :: "'c \<Rightarrow> halfedge"
  target :: "'c \<Rightarrow> halfedge"
  chain :: "'c \<Rightarrow> 'v"
  vector :: "'c \<Rightarrow> 'w"
  neg :: "'c \<Rightarrow> 'c"
  fromEdge_original :: "halfedge \<Rightarrow> 'c"
  check_connection :: "'c \<Rightarrow> bool"
  parallel :: "'c collapsed \<Rightarrow> halfedge \<Rightarrow> bool"
  parallel_component :: "'c \<Rightarrow> 'r"
  perpendicular :: "'c \<Rightarrow> 'r"
  large :: "'c collapsed \<Rightarrow> halfedge \<Rightarrow> bool"
  boundary :: "'c collapsed \<Rightarrow> halfedge \<Rightarrow> bool"
  area :: "'w \<Rightarrow> 'w \<Rightarrow> 'w \<Rightarrow> 'r"
  original_area :: "'r"
  combinatorial_flip :: "'c collapsed \<Rightarrow> halfedge \<Rightarrow> 'c collapsed"
  combinatorial_collapse :: "'c collapsed \<Rightarrow> halfedge \<Rightarrow> 'c collapsed"
  hidden_updateAfterFlip :: "'c collapsed \<Rightarrow> halfedge \<Rightarrow> 'c collapsed"
  hidden_updateBeforeCollapse :: "'c collapsed \<Rightarrow> halfedge \<Rightarrow> 'c collapsed"

text \<open>The lambda \<^verbatim>\<open>sum\<close> of \<^verbatim>\<open>updateAfterFlip\<close>.\<close>

definition sum_connection :: "('c, 'v::ab_group_add, 'w, 'r) collaborators \<Rightarrow> 'c \<Rightarrow> 'c \<Rightarrow> 'c" where
  "sum_connection env lhs rhs =
     SaddleConnection env (source env lhs) (target env rhs) (chain env lhs + chain env rhs)"

text \<open>
  Store operations. \<^verbatim>\<open>vectors.set\<close> of the asymmetric store writes one entry.
  \<^verbatim>\<open>target.splice(target.end(), source)\<close> moves the whole source list behind
  the target list and leaves the source empty; splicing a list into itself is
  undefined in C++, and the model then empties it (the update of the source is
  applied last).
\<close>

definition set_vector :: "'c collapsed \<Rightarrow> halfedge \<Rightarrow> 'c \<Rightarrow> 'c collapsed" where
  "set_vector s e v = s\<lparr>vectors := (vectors s)(e := v)\<rparr>"

definition splice_end :: "'c collapsed \<Rightarrow> halfedge \<Rightarrow> halfedge \<Rightarrow> 'c collapsed" where
  "splice_end s tgt src =
     s\<lparr>collapsedHalfEdges :=
         ((collapsedHalfEdges s)(tgt := collapsedHalfEdges s tgt @ collapsedHalfEdges s src))(src := [])\<rparr>"

definition splice_begin :: "'c collapsed \<Rightarrow> halfedge \<Rightarrow> halfedge \<Rightarrow> 'c collapsed" where
  "splice_begin s tgt src =
     s\<lparr>collapsedHalfEdges :=
         ((collapsedHalfEdges s)(tgt := collapsedHalfEdges s src @ collapsedHalfEdges s tgt))(src := [])\<rparr>"

definition push_front :: "'c collapsed \<Rightarrow> halfedge \<Rightarrow> 'c \<Rightarrow> 'c collapsed" where
  "push_front s e c = s\<lparr>collapsedHalfEdges := (collapsedHalfEdges s)(e := c # collapsedHalfEdges s e)\<rparr>"

text \<open>The lambda \<^verbatim>\<open>set\<close> of \<^verbatim>\<open>updateBeforeCollapse\<close>: copy both entries.\<close>

definition set_from :: "'c collapsed \<Rightarrow> halfedge \<Rightarrow> halfedge \<Rightarrow> 'c collapsed" where
  "set_from s tgt src =
     s\<lparr>vectors := (vectors s)(tgt := vectors s src),
       collapsedHalfEdges := (collapsedHalfEdges s)(tgt := collapsedHalfEdges s src)\<rparr>"

text \<open>
  \<^verbatim>\<open>handleFlip\<close>: the flip turned the faces \<open>(a b flip)(c d -flip)\<close> into
  \<open>(a -flip d)(c flip b)\<close>; the four neighbours are read from the new faces.
\<close>

definition handleFlip ::
  "'c collapsed \<Rightarrow> halfedge \<Rightarrow> (halfedge \<Rightarrow> halfedge \<Rightarrow> halfedge \<Rightarrow> halfedge \<Rightarrow> 'x) \<Rightarrow> 'x" where
  "handleFlip surface flip handler =
     (let a = previousInFace surface (- flip);
          b = nextInFace surface flip;
          c = previousInFace surface flip;
          d = nextInFace surface (- flip)
      in handler a b c d)"

text \<open>The two loops that pull \<open>b\<close> and \<open>d\<close> over the hidden connections.\<close>

fun extend_vector ::
  "('c, 'v::ab_group_add, 'w, 'r) collaborators \<Rightarrow> 'c collapsed \<Rightarrow> halfedge \<Rightarrow> 'c list \<Rightarrow> 'c collapsed" where
  "extend_vector env s e [] = s"
| "extend_vector env s e (connection # rest) =
     extend_vector env (set_vector s e (sum_connection env (vectors s e) connection)) e rest"

definition updateAfterFlip ::
  "('c, 'v::ab_group_add, 'w, 'r) collaborators \<Rightarrow> 'c collapsed \<Rightarrow> halfedge \<Rightarrow> error + 'c collapsed" where
  "updateAfterFlip env surface flip =
     handleFlip surface flip (\<lambda>a b c d.
       let s1 = extend_vector env surface b (collapsedHalfEdges surface flip);
           s2 = extend_vector env s1 d (collapsedHalfEdges s1 (- flip));
           s3 = splice_end s2 (- b) flip;
           s4 = splice_end s3 (- d) (- flip);
           s5 = set_vector s4 flip (sum_connection env (vectors s4 d) (vectors s4 a));
           s6 = set_vector s5 (- flip) (neg env (vectors s5 flip))
       in if vectors s6 (- flip) = sum_connection env (vectors s6 b) (vectors s6 c)
          then Inr s6 else Inl InvariantViolated)"

text \<open>
  \<^verbatim>\<open>handleCollapse\<close>: take the positive half edge of the edge, require it to
  be vertical, and orient it along the vertical.
\<close>

definition handleCollapse ::
  "('c, 'v, 'w, 'r::linordered_idom) collaborators \<Rightarrow> 'c collapsed \<Rightarrow> halfedge
     \<Rightarrow> (halfedge \<Rightarrow> error + 'c collapsed) \<Rightarrow> error + 'c collapsed" where
  "handleCollapse env surface collapse_edge handler =
     (let collapse = \<bar>collapse_edge\<bar>
      in if \<not> parallel env surface collapse then Inl InvariantViolated
         else handler (if parallel_component env (vectors surface collapse) < 0
                       then - collapse else collapse))"

text \<open>The case distinction of \<^verbatim>\<open>updateBeforeCollapse\<close> on the identified outer edges.\<close>

definition collapse_cases ::
  "('c, 'v, 'w, 'r) collaborators \<Rightarrow> 'c collapsed \<Rightarrow> halfedge \<Rightarrow> halfedge \<Rightarrow> halfedge \<Rightarrow> halfedge
     \<Rightarrow> error + 'c collapsed" where
  "collapse_cases env s a b c d =
     (if a = - c \<and> b = - d then
        (let s1 = set_vector s (- a) (neg env (vectors s a));
             s2 = splice_end s1 a b;
             s3 = splice_begin s2 (- a) (- b);
             s4 = set_from s3 b a
         in Inr (set_from s4 (- b) (- a)))
      else if a = - c then
        (let s1 = splice_end s (- b) c;
             s2 = splice_end s1 (- b) d;
             s3 = splice_end s2 (- d) a;
             s4 = splice_end s3 (- d) b;
             s5 = set_from s4 a (- d);
             s6 = set_from s5 b (- d);
             s7 = set_from s6 c (- b)
         in Inr (set_from s7 d (- b)))
      else if b = - d then
        (let s1 = splice_end s (- a) d;
             s2 = splice_end s1 (- a) c;
             s3 = splice_end s2 (- c) b;
             s4 = splice_end s3 (- c) a;
             s5 = set_from s4 a (- c);
             s6 = set_from s5 b (- c);
             s7 = set_from s6 c (- a)
         in Inr (set_from s7 d (- a)))
      else if a = - d \<or> b = - c then
        (let s1 = (if a = - d then set_vector s (- a) (neg env (vectors s a))
                   else set_from (set_from (splice_end (splice_end s (- a) d) (- d) a) a (- d)) d (- a))
         in Inr (if b = - c then set_vector s1 (- b) (neg env (vectors s1 b))
                 else set_from (set_from (splice_end (splice_end s1 (- b) c) (- c) b) b (- c)) c (- b)))
      else if \<not> distinct [a, b, c, d, - a, - b, - c, - d] then Inl InvariantViolated
      else
        (let s1 = splice_end s (- a) d;
             s2 = splice_end s1 (- b) c;
             s3 = splice_end s2 (- c) b;
             s4 = splice_end s3 (- d) a;
             s5 = set_from s4 a (- d);
             s6 = set_from s5 b (- c);
             s7 = set_from s6 c (- b)
         in Inr (set_from s7 d (- a))))"

definition updateBeforeCollapse ::
  "('c, 'v, 'w, 'r::linordered_idom) collaborators \<Rightarrow> 'c collapsed \<Rightarrow> halfedge \<Rightarrow> error + 'c collapsed" where
  "updateBeforeCollapse env surface collapse_edge =
     handleCollapse env surface collapse_edge (\<lambda>collapse.
       let a = previousInFace surface (- collapse);
           b = nextInFace surface collapse;
           c = previousInFace surface collapse;
           d = nextInFace surface (- collapse);
           connection = vectors surface collapse
       in if neg env connection \<noteq> vectors surface (- collapse) then Inl InvariantViolated
          else if \<not> check_connection env connection then Inl InvariantViolated
          else
            (let s1 = push_front surface b connection;
                 s2 = push_front s1 d (neg env connection)
             in case collapse_cases env s2 a b c d of
                  Inl err \<Rightarrow> Inl err
                | Inr s3 \<Rightarrow>
                    if collapsedHalfEdges s3 (- a) = [] \<or> collapsedHalfEdges s3 b = []
                       \<or> collapsedHalfEdges s3 (- c) = [] \<or> collapsedHalfEdges s3 d = []
                    then Inl InvariantViolated else Inr s3))"

text \<open>
  The state set up by the constructor: every half edge carries the connection
  along itself in the original surface and hides nothing.
\<close>

definition initial_collapsed ::
  "('c, 'v, 'w, 'r) collaborators \<Rightarrow> halfedge list \<Rightarrow> (halfedge \<Rightarrow> halfedge) \<Rightarrow> (halfedge \<Rightarrow> halfedge) \<Rightarrow> 'c collapsed" where
  "initial_collapsed env hes nf pf =
     \<lparr>halfEdges = hes, nextInFace = nf, previousInFace = pf,
      vectors = fromEdge_original env, collapsedHalfEdges = (\<lambda>e. [])\<rparr>"

text \<open>
  \<^verbatim>\<open>check\<close>: every face that is not collapsed is closed in the direction
  perpendicular to the vertical; the area, summed over the half edges with three
  times the triangle of every hidden connection, equals the area of the original
  surface; every vector is a valid saddle connection.
\<close>

fun check_faces :: "('c, 'v, 'w, 'r::linordered_idom) collaborators \<Rightarrow> 'c collapsed \<Rightarrow> halfedge list \<Rightarrow> bool" where
  "check_faces env self [] = True"
| "check_faces env self (e # rest) =
     (if boundary env self e then check_faces env self rest
      else if nextInFace self e = - e then check_faces env self rest
      else if perpendicular env (vectors self e)
              + perpendicular env (vectors self (nextInFace self e))
              + perpendicular env (vectors self (previousInFace self e)) \<noteq> 0 then False
      else check_faces env self rest)"

fun cross_area ::
  "('c, 'v, 'w::ab_group_add, 'r::linordered_idom) collaborators \<Rightarrow> 'c collapsed \<Rightarrow> halfedge \<Rightarrow> 'c list \<Rightarrow> 'r \<Rightarrow> 'r" where
  "cross_area env self e [] acc = acc"
| "cross_area env self e (connection # rest) acc =
     cross_area env self e rest
       (acc + 3 * area env (vector env connection)
                     (vector env (vectors self e) - vector env connection)
                     (vector env (neg env (vectors self e))))"

fun check_area ::
  "('c, 'v, 'w::ab_group_add, 'r::linordered_idom) collaborators \<Rightarrow> 'c collapsed \<Rightarrow> halfedge list \<Rightarrow> 'r \<Rightarrow> error + 'r" where
  "check_area env self [] acc = Inr acc"
| "check_area env self (e # rest) acc =
     (if boundary env self e then Inl NotImplemented
      else
        (let acc1 = (if nextInFace self e \<noteq> previousInFace self e
                     then acc + area env (vector env (vectors self e))
                                  (vector env (vectors self (nextInFace self e)))
                                  (vector env (vectors self (previousInFace self e)))
                     else acc)
         in check_area env self rest (cross_area env self e (collapsedHalfEdges self e) acc1)))"

definition check ::
  "('c, 'v, 'w::ab_group_add, 'r::linordered_idom) collaborators \<Rightarrow> 'c collapsed \<Rightarrow> error + unit" where
  "check env self =
     (if \<not> check_faces env self (halfEdges self) then Inl InvariantViolated
      else case check_area env self (halfEdges self) 0 of
             Inl err \<Rightarrow> Inl err
           | Inr area_sum \<Rightarrow>
               if area_sum \<noteq> original_area env then Inl InvariantViolated
               else if \<not> list_all (\<lambda>e. check_connection env (vectors self e)) (halfEdges self)
                    then Inl InvariantViolated
               else Inr ())"

text \<open>
  \<^verbatim>\<open>FlatTriangulationCombinatorial::flip\<close> updates the permutations and then
  emits \<^verbatim>\<open>afterFlip\<close>; \<^verbatim>\<open>FlatTriangulationCombinatorial::collapse\<close> emits
  \<^verbatim>\<open>beforeCollapse\<close> and then changes the permutations. The stores are notified
  in the order in which the constructor creates them: the hidden connections first,
  then the vectors.
\<close>

definition FlatTriangulationCombinatorial_flip ::
  "('c, 'v::ab_group_add, 'w, 'r) collaborators \<Rightarrow> 'c collapsed \<Rightarrow> halfedge \<Rightarrow> error + 'c collapsed" where
  "FlatTriangulationCombinatorial_flip env self e =
     updateAfterFlip env (hidden_updateAfterFlip env (combinatorial_flip env self e) e) e"

definition FlatTriangulationCombinatorial_collapse ::
  "('c, 'v, 'w, 'r::linordered_idom) collaborators \<Rightarrow> 'c collapsed \<Rightarrow> halfedge \<Rightarrow> error + 'c collapsed" where
  "FlatTriangulationCombinatorial_collapse env self e =
     (case updateBeforeCollapse env (hidden_updateBeforeCollapse env self e) e of
        Inl err \<Rightarrow> Inl err
      | Inr s \<Rightarrow> Inr (combinatorial_collapse env s e))"

definition collapse ::
  "('c, 'v, 'w::ab_group_add, 'r::linordered_idom) collaborators \<Rightarrow> 'c collapsed \<Rightarrow> halfedge \<Rightarrow> error + 'c collapsed" where
  "collapse env self e =
     (case FlatTriangulationCombinatorial_collapse env self e of
        Inl err \<Rightarrow> Inl err
      | Inr s \<Rightarrow> (case check env s of Inl err \<Rightarrow> Inl err | Inr _ \<Rightarrow> Inr s))"

definition flip ::
  "('c, 'v::ab_group_add, 'w::ab_group_add, 'r::linordered_idom) collaborators \<Rightarrow> 'c collapsed \<Rightarrow> halfedge
     \<Rightarrow> error + 'c collapsed" where
  "flip env self e0 =
     (if \<not> large env self e0 then Inl InvalidArgument
      else if \<not> (nextInFace self (nextInFace self (nextInFace self e0)) = e0
                \<and> nextInFace self (nextInFace self (nextInFace self (- e0))) = - e0)
           then Inl InvalidArgument
      else
        (let e = (if perpendicular env (vectors self e0) < 0 then - e0 else e0)
         in case FlatTriangulationCombinatorial_flip env self e of
              Inl err \<Rightarrow> Inl err
            | Inr s1 \<Rightarrow>
                (case (if parallel env s1 e then collapse env s1 e else Inr s1) of
                   Inl err \<Rightarrow> Inl err
                 | Inr s2 \<Rightarrow> (case check env s2 of Inl err \<Rightarrow> Inl err | Inr _ \<Rightarrow> Inr s2))))"

text \<open>
  \<^verbatim>\<open>make\<close>: collapse the first vertical half edge, again and again, until no
  half edge is vertical; then check the result. The loop need not terminate, so
  its value is optional.
\<close>

partial_function (option) make_loop ::
  "('c, 'v, 'w::ab_group_add, 'r::linordered_idom) collaborators \<Rightarrow> 'c collapsed \<Rightarrow> (error + 'c collapsed) option" where
  "make_loop env ret =
     (case find (parallel env ret) (halfEdges ret) of
        None \<Rightarrow> Some (Inr ret)
      | Some e \<Rightarrow>
          (case collapse env ret e of
             Inl err \<Rightarrow> Some (Inl err)
           | Inr ret1 \<Rightarrow> make_loop env ret1))"

declare make_loop.simps [code]

definition make ::
  "('c, 'v, 'w::ab_group_add, 'r::linordered_idom) collaborators \<Rightarrow> halfedge list \<Rightarrow> (halfedge \<Rightarrow> halfedge)
     \<Rightarrow> (halfedge \<Rightarrow> halfedge) \<Rightarrow> (error + 'c collapsed) option" where
  "make env hes nf pf =
     (case make_loop env (initial_collapsed env hes nf pf) of
        None \<Rightarrow> None
      | Some (Inl err) \<Rightarrow> Some (Inl err)
      | Some (Inr ret) \<Rightarrow>
          (case check env ret of Inl err \<Rightarrow> Some (Inl err) | Inr _ \<Rightarrow> Some (Inr ret)))"

section \<open>Concrete surfaces\<close>

text \<open>
  An instance of the collaborators over the integers for the vertical \<open>(0, 1)\<close>:
  a saddle connection is identified with its vector, the perpendicular component
  is the first and the parallel component the second coordinate, the area of a
  triangle is the cross product of its first two sides, and a half edge is large
  when no side of its two faces is wider. The hooks of the hidden store do
  nothing. The argument \<open>vs\<close> gives the vectors of the original surface and
  \<open>A\<close> its area (summed over the half edges).
\<close>

text \<open>
  Modelled from the spec: the permutation update of the combinatorial flip
  (flat\_triangulation\_combinatorial.cc is not among the sources), which turns
  the faces \<open>(a b e)(c d -e)\<close> into \<open>(a -e d)(c e b)\<close>.
\<close>

definition flip_faces :: "'c collapsed \<Rightarrow> halfedge \<Rightarrow> 'c collapsed" where
  "flip_faces s e =
     (let a = nextInFace s e; b = previousInFace s e;
          c = nextInFace s (- e); d = previousInFace s (- e)
      in s\<lparr>nextInFace := (nextInFace s)(a := - e, - e := d, d := a, c := e, e := b, b := c),
           previousInFace := (previousInFace s)(- e := a, d := - e, a := d, e := c, b := e, c := b)\<rparr>)"

text \<open>
  The outcome of the combinatorial collapse of an edge of a torus with one vertex
  and two faces: one edge pair other than the collapsed one remains (the first in
  the list of half edges), in one collapsed face.
\<close>

definition single_pair :: "'c collapsed \<Rightarrow> halfedge \<Rightarrow> 'c collapsed" where
  "single_pair s e =
     (case filter (\<lambda>x. 0 < x \<and> x \<noteq> e \<and> x \<noteq> - e \<and> - x \<in> set (halfEdges s)) (halfEdges s) of
        [] \<Rightarrow> s\<lparr>halfEdges := [], nextInFace := uminus, previousInFace := uminus\<rparr>
      | m # rest \<Rightarrow> s\<lparr>halfEdges := [m, - m], nextInFace := uminus, previousInFace := uminus\<rparr>)"

definition widest :: "(int \<times> int) collapsed \<Rightarrow> halfedge \<Rightarrow> bool" where
  "widest s e =
     list_all (\<lambda>x. \<bar>fst (vectors s x)\<bar> \<le> \<bar>fst (vectors s e)\<bar>)
       [nextInFace s e, previousInFace s e, nextInFace s (- e), previousInFace s (- e)]"

definition vertical_collaborators ::
  "(halfedge \<Rightarrow> int \<times> int) \<Rightarrow> int \<Rightarrow> (int \<times> int, int \<times> int, int \<times> int, int) collaborators" where
  "vertical_collaborators vs A =
     \<lparr>SaddleConnection = (\<lambda>src tgt ch. ch), source = (\<lambda>c. 0), target = (\<lambda>c. 0),
      chain = (\<lambda>c. c), vector = (\<lambda>c. c), neg = uminus, fromEdge_original = vs,
      check_connection = (\<lambda>c. True),
      parallel = (\<lambda>s e. fst (vectors s e) = 0), parallel_component = snd, perpendicular = fst,
      large = widest, boundary = (\<lambda>s e. False),
      area = (\<lambda>u v w. cross u v), original_area = A,
      combinatorial_flip = flip_faces, combinatorial_collapse = single_pair,
      hidden_updateAfterFlip = (\<lambda>s e. s), hidden_updateBeforeCollapse = (\<lambda>s e. s)\<rparr>"

text \<open>The torus with one vertex and the faces \<open>(1 2 3)(-1 -2 -3)\<close>.\<close>

definition torus_nextInFace :: "halfedge \<Rightarrow> halfedge" where
  "torus_nextInFace e =
     (if e = 1 then 2 else if e = 2 then 3 else if e = 3 then 1
      else if e = - 1 then - 2 else if e = - 2 then - 3 else if e = - 3 then - 1 else e)"

definition torus_previousInFace :: "halfedge \<Rightarrow> halfedge" where
  "torus_previousInFace e =
     (if e = 2 then 1 else if e = 3 then 2 else if e = 1 then 3
      else if e = - 2 then - 1 else if e = - 3 then - 2 else if e = - 1 then - 3 else e)"

definition torus_nextAtVertex :: "halfedge \<Rightarrow> halfedge" where
  "torus_nextAtVertex e =
     (if e = 1 then - 3 else if e = - 3 then 2 else if e = 2 then - 1
      else if e = - 1 then 3 else if e = 3 then - 2 else if e = - 2 then 1 else e)"

definition torus_halfEdges :: "halfedge list" where
  "torus_halfEdges = [1, - 1, 2, - 2, 3, - 3]"

text \<open>The unit square torus, with the vertical edge 2.\<close>

definition square_vectors :: "halfedge \<Rightarrow> int \<times> int" where
  "square_vectors e =
     (if e = 1 then (1, 0) else if e = 2 then (0, 1) else if e = 3 then (- 1, - 1)
      else if e = - 1 then (- 1, 0) else if e = - 2 then (0, - 1) else if e = - 3 then (1, 1)
      else (0, 0))"

text \<open>A sheared torus without vertical edge, whose second diagonal is vertical.\<close>

definition sheared_vectors :: "halfedge \<Rightarrow> int \<times> int" where
  "sheared_vectors e =
     (if e = 1 then (1, 0) else if e = 2 then (1, 1) else if e = 3 then (- 2, - 1)
      else if e = - 1 then (- 1, 0) else if e = - 2 then (- 1, - 1) else if e = - 3 then (2, 1)
      else (0, 0))"

text \<open>
  The torus made of two unit squares, with two vertices and the faces
  \<open>(1 4 -5)(5 -1 -3)(2 3 -6)(6 -2 -4)\<close>: 1 and 2 are horizontal, 3 and 4
  vertical, 5 and 6 the diagonals.
\<close>

definition squares_halfEdges :: "halfedge list" where
  "squares_halfEdges = [1, - 1, 2, - 2, 3, - 3, 4, - 4, 5, - 5, 6, - 6]"

definition squares_nextInFace :: "halfedge \<Rightarrow> halfedge" where
  "squares_nextInFace e =
     (if e = 1 then 4 else if e = 4 then - 5 else if e = - 5 then 1
      else if e = 5 then - 1 else if e = - 1 then - 3 else if e = - 3 then 5
      else if e = 2 then 3 else if e = 3 then - 6 else if e = - 6 then 2
      else if e = 6 then - 2 else if e = - 2 then - 4 else if e = - 4 then 6 else e)"

definition squares_previousInFace :: "halfedge \<Rightarrow> halfedge" where
  "squares_previousInFace e =
     (if e = 4 then 1 else if e = - 5 then 4 else if e = 1 then - 5
      else if e = - 1 then 5 else if e = - 3 then - 1 else if e = 5 then - 3
      else if e = 3 then 2 else if e = - 6 then 3 else if e = 2 then - 6
      else if e = - 2 then 6 else if e = - 4 then - 2 else if e = 6 then - 4 else e)"

definition squares_vectors :: "halfedge \<Rightarrow> int \<times> int" where
  "squares_vectors e =
     (if e = 1 \<or> e = 2 then (1, 0) else if e = 3 \<or> e = 4 then (0, 1)
      else if e = 5 \<or> e = 6 then (1, 1)
      else if e = - 1 \<or> e = - 2 then (- 1, 0) else if e = - 3 \<or> e = - 4 then (0, - 1)
      else if e = - 5 \<or> e = - 6 then (- 1, - 1) else (0, 0))"

definition square_env :: "(int \<times> int, int \<times> int, int \<times> int, int) collaborators" where
  "square_env = vertical_collaborators square_vectors 6"

definition square_torus :: "(int \<times> int) collapsed" where
  "square_torus = initial_collapsed square_env torus_halfEdges torus_nextInFace torus_previousInFace"

definition sheared_env :: "(int \<times> int, int \<times> int, int \<times> int, int) collaborators" where
  "sheared_env = vertical_collaborators sheared_vectors 6"

definition sheared_torus :: "(int \<times> int) collapsed" where
  "sheared_torus = initial_collapsed sheared_env torus_halfEdges torus_nextInFace torus_previousInFace"

definition squares_env :: "(int \<times> int, int \<times> int, int \<times> int, int) collaborators" where
  "squares_env = vertical_collaborators squares_vectors 12"

definition two_squares :: "(int \<times> int) collapsed" where
  "two_squares = initial_collapsed squares_env squares_halfEdges squares_nextInFace squares_previousInFace"

text \<open>
  The two squares after the combinatorial flip of the diagonal 5, with one
  vertical connection hidden in 5 and its negative hidden in -5.
\<close>

definition flipped_squares :: "(int \<times> int) collapsed" where
  "flipped_squares =
     (flip_faces two_squares 5)
       \<lparr>collapsedHalfEdges := (\<lambda>e. if e = 5 then [(0, 1)] else if e = - 5 then [(0, - 1)] else [])\<rparr>"

section \<open>Properties of the collapsed triangulation\<close>


text \<open>
  No half edge of the surface is parallel to the vertical; every hidden connection
  satisfies \<open>P\<close> (is vertical).
\<close>

definition no_vertical :: "('c, 'v, 'w, 'r) collaborators \<Rightarrow> 'c collapsed \<Rightarrow> bool" where
  "no_vertical env s = (\<forall>e \<in> set (halfEdges s). \<not> parallel env s e)"

definition hidden_vertical :: "('c \<Rightarrow> bool) \<Rightarrow> 'c collapsed \<Rightarrow> bool" where
  "hidden_vertical P s = (\<forall>x. list_all P (collapsedHalfEdges s x))"

text \<open>
  \<open>P\<close> is the predicate of being vertical: a half edge is parallel to the
  vertical iff its vector satisfies \<open>P\<close>, the negative of a connection is
  vertical iff the connection is, and a connection that is not vertical stays so
  when a vertical connection is added to it.
\<close>

definition vertical_predicate :: "('c, 'v::ab_group_add, 'w, 'r) collaborators \<Rightarrow> ('c \<Rightarrow> bool) \<Rightarrow> bool" where
  "vertical_predicate env P =
     ((\<forall>s e. parallel env s e = P (vectors s e))
      \<and> (\<forall>c. P (neg env c) = P c)
      \<and> (\<forall>v c. \<not> P v \<and> P c \<longrightarrow> \<not> P (sum_connection env v c)))"

text \<open>
  What the combinatorial operations and the hooks of the hidden store, which are
  not among the sources, do to the stores: the combinatorial flip changes the
  permutations only; the hooks of the hidden store change the hidden lists only
  and hide vertical connections only; the combinatorial collapse of \<open>e\<close>
  removes \<open>e\<close> and \<open>-e\<close>, every half edge that remains carries the vector
  that some other half edge carried before, and no connection becomes hidden by
  it.
\<close>

definition combinatorial_contract :: "('c, 'v, 'w, 'r) collaborators \<Rightarrow> ('c \<Rightarrow> bool) \<Rightarrow> bool" where
  "combinatorial_contract env P =
     ((\<forall>s e. halfEdges (combinatorial_flip env s e) = halfEdges s
             \<and> vectors (combinatorial_flip env s e) = vectors s
             \<and> collapsedHalfEdges (combinatorial_flip env s e) = collapsedHalfEdges s)
      \<and> (\<forall>s e. halfEdges (hidden_updateAfterFlip env s e) = halfEdges s
             \<and> nextInFace (hidden_updateAfterFlip env s e) = nextInFace s
             \<and> previousInFace (hidden_updateAfterFlip env s e) = previousInFace s
             \<and> vectors (hidden_updateAfterFlip env s e) = vectors s
             \<and> (hidden_vertical P s \<longrightarrow> hidden_vertical P (hidden_updateAfterFlip env s e)))
      \<and> (\<forall>s e. halfEdges (hidden_updateBeforeCollapse env s e) = halfEdges s
             \<and> nextInFace (hidden_updateBeforeCollapse env s e) = nextInFace s
             \<and> previousInFace (hidden_updateBeforeCollapse env s e) = previousInFace s
             \<and> vectors (hidden_updateBeforeCollapse env s e) = vectors s
             \<and> (hidden_vertical P s \<longrightarrow> hidden_vertical P (hidden_updateBeforeCollapse env s e)))
      \<and> (\<forall>s e. (\<forall>x \<in> set (halfEdges (combinatorial_collapse env s e)).
                    \<exists>y \<in> set (halfEdges s). y \<noteq> e \<and> y \<noteq> - e
                       \<and> vectors (combinatorial_collapse env s e) x = vectors s y)
             \<and> (hidden_vertical P s \<longrightarrow> hidden_vertical P (combinatorial_collapse env s e))))"

text \<open>
  What the collapse hook maintains while it rewrites the stores: the list of half
  edges, that no half edge of the set \<open>X\<close> carries a vertical vector, and that
  all hidden connections are vertical.
\<close>

definition hook_invariant :: "('c \<Rightarrow> bool) \<Rightarrow> halfedge set \<Rightarrow> halfedge list \<Rightarrow> 'c collapsed \<Rightarrow> bool" where
  "hook_invariant P X hes s =
     (halfEdges s = hes \<and> (\<forall>x \<in> X. \<not> P (vectors s x)) \<and> hidden_vertical P s)"

text \<open>
  The four neighbours of \<open>e\<close> and \<open>-e\<close> in their faces are half edges of the
  surface, as are their opposites, and differ from \<open>e\<close> and \<open>-e\<close>.
\<close>

definition neighbours_present :: "'c collapsed \<Rightarrow> halfedge \<Rightarrow> bool" where
  "neighbours_present s e =
     list_all (\<lambda>n. n \<in> set (halfEdges s) \<and> - n \<in> set (halfEdges s) \<and> n \<noteq> e \<and> n \<noteq> - e)
       [nextInFace s e, previousInFace s e, nextInFace s (- e), previousInFace s (- e)]"

section \<open>Theorems\<close>

subsection \<open>Helper facts\<close>

lemma Inr_projr: "isl x = False \<Longrightarrow> x = Inr (projr x)"
  by (cases x) simp_all

lemma Some_Inr_the: "(case x of Some (Inr s) \<Rightarrow> True | _ \<Rightarrow> False) \<Longrightarrow> x = Some (Inr (projr (the x)))"
  by (auto split: option.splits sum.splits)

lemma extend_vector_vectors:
  "vectors (extend_vector env s e cs) = (vectors s)(e := foldl (sum_connection env) (vectors s e) cs)"
  by (induction cs arbitrary: s) (simp_all add: set_vector_def)

lemma extend_vector_other:
  "collapsedHalfEdges (extend_vector env s e cs) = collapsedHalfEdges s"
  "nextInFace (extend_vector env s e cs) = nextInFace s"
  "previousInFace (extend_vector env s e cs) = previousInFace s"
  "halfEdges (extend_vector env s e cs) = halfEdges s"
  by (induction cs arbitrary: s) (simp_all add: set_vector_def)

lemma make_loop_no_parallel:
  assumes "make_loop env s = Some r"
  shows "\<forall>s'. r = Inr s' \<longrightarrow> (\<forall>e \<in> set (halfEdges s'). \<not> parallel env s' e)"
proof (rule make_loop.raw_induct
    [where P = "\<lambda>env s r. \<forall>s'. r = Inr s' \<longrightarrow> (\<forall>e \<in> set (halfEdges s'). \<not> parallel env s' e)",
      OF _ assms])
  fix loop :: "('a, 'b, 'c, 'd) collaborators \<Rightarrow> 'a collapsed \<Rightarrow> (error + 'a collapsed) option"
    and env :: "('a, 'b, 'c, 'd) collaborators" and ret y
  assume IH: "\<And>ret b y. loop ret b = Some y \<Longrightarrow>
                \<forall>s'. y = Inr s' \<longrightarrow> (\<forall>e \<in> set (halfEdges s'). \<not> parallel ret s' e)"
    and body: "(case find (parallel env ret) (halfEdges ret) of
                  None \<Rightarrow> Some (Inr ret)
                | Some e \<Rightarrow> (case collapse env ret e of
                               Inl err \<Rightarrow> Some (Inl err)
                             | Inr ret1 \<Rightarrow> loop env ret1)) = Some y"
  show "\<forall>s'. y = Inr s' \<longrightarrow> (\<forall>e \<in> set (halfEdges s'). \<not> parallel env s' e)"
  proof (cases "find (parallel env ret) (halfEdges ret)")
    case None
    with body show ?thesis by (auto simp: find_None_iff)
  next
    case (Some e)
    show ?thesis
    proof (cases "collapse env ret e")
      case (Inl err)
      with Some body show ?thesis by auto
    next
      case (Inr ret1)
      with Some body have "loop env ret1 = Some y" by simp
      then show ?thesis by (rule IH)
    qed
  qed
qed

lemma square_make_returns:
  "(case make square_env torus_halfEdges torus_nextInFace torus_previousInFace of
      Some (Inr s) \<Rightarrow> True | _ \<Rightarrow> False)"
  by code_simp

subsection \<open>Flat triangulation\<close>

lemma faces_closed_Inr_iff:
  "faces_closed nf vs hes = Inr () \<longleftrightarrow> (\<forall>e \<in> set hes. vs e + vs (nf e) + vs (nf (nf e)) = 0)"
  by (induction hes) (auto simp: Let_def)

lemma faces_closed_cases:
  "faces_closed nf vs hes = Inr () \<or> faces_closed nf vs hes = Inl InvalidArgument"
  by (induction hes) (auto simp: Let_def)

text \<open>
  C6. The flip hook of the flat triangulation stores at \<open>e\<close> the sum of the vectors
  of \<open>-nextInFace e\<close> and \<open>nextAtVertex e\<close> (read in the new permutations), and the
  entry of \<open>-e\<close> is then the negation of the entry of \<open>e\<close>.
\<close>

theorem flat_updateAfterFlip_vectors:
  fixes m :: "halfedge \<Rightarrow> 'v::ab_group_add"
  shows "e \<noteq> 0 \<longrightarrow>
         flat_updateAfterFlip nf nv m e e = m (- nf e) + m (nv e) \<and>
         flat_updateAfterFlip nf nv m e (- e) = - flat_updateAfterFlip nf nv m e e"
  by (simp add: flat_updateAfterFlip_def odd_set_def)

theorem flat_updateAfterFlip_vectors_witness:
  "(3::int) \<noteq> 0 \<and>
   flat_updateAfterFlip (\<lambda>e. e + 1) (\<lambda>e. e + 2) (\<lambda>e. 10 * e) 3 3 = (10::int) \<and>
   flat_updateAfterFlip (\<lambda>e. e + 1) (\<lambda>e. e + 2) (\<lambda>e. 10 * e) 3 (- 3) = (- 10::int)"
  using flat_updateAfterFlip_vectors [of 3 "\<lambda>e. e + 1" "\<lambda>e. e + 2" "\<lambda>e. 10 * e"]
  by simp

text \<open>
  C10. \<^verbatim>\<open>bound\<close> leaves the sectors alone and stores the smaller of the radius
  already set and the new one (the new one when none was set). Hence after two
  successive bounds the stored radius is the minimum of the two radii (and of the
  radius set before, if any): on a query without radius it is exactly
  \<open>min r1 r2\<close>. Two bounds give the query bounded by the smaller radius;
  bounding is idempotent and the order of two bounds does not matter.
\<close>

theorem bound_bound_min:
  "bound r2 (bound r1 q) = bound (min r1 r2) q \<and>
   bound r1 (bound r1 q) = bound r1 q \<and>
   bound r2 (bound r1 q) = bound r1 (bound r2 q) \<and>
   searchRadius (bound r1 q) = Some (case searchRadius q of None \<Rightarrow> r1 | Some old \<Rightarrow> min old r1) \<and>
   searchRadius (bound r2 (bound r1 q))
     = Some (case searchRadius q of None \<Rightarrow> min r1 r2 | Some old \<Rightarrow> min old (min r1 r2)) \<and>
   searchRadius (bound r2 (bound r1 \<lparr>searchRadius = None, sectors = ss\<rparr>)) = Some (min r1 r2) \<and>
   sectors (bound r1 q) = sectors q \<and>
   sectors (bound r2 (bound r1 q)) = sectors q"
proof -
  have eqs: "bound r2 (bound r1 q) = bound (min r1 r2) q"
      "bound r1 (bound r1 q) = bound r1 q"
      "bound r2 (bound r1 q) = bound r1 (bound r2 q)"
    by (cases "searchRadius q"; simp add: bound_def min.assoc min.commute min.left_commute)+
  have one: "searchRadius (bound r1 q)
      = Some (case searchRadius q of None \<Rightarrow> r1 | Some old \<Rightarrow> min old r1)"
    by (cases "searchRadius q") (simp_all add: bound_def)
  have two: "searchRadius (bound r2 (bound r1 q))
      = Some (case searchRadius q of None \<Rightarrow> min r1 r2 | Some old \<Rightarrow> min old (min r1 r2))"
    by (cases "searchRadius q") (simp_all add: bound_def min.assoc)
  have fresh: "searchRadius (bound r2 (bound r1 \<lparr>searchRadius = None, sectors = ss\<rparr>))
      = Some (min r1 r2)"
    by (simp add: bound_def)
  have secs: "sectors (bound r1 q) = sectors q" "sectors (bound r2 (bound r1 q)) = sectors q"
    by (simp_all add: bound_def)
  from eqs one two fresh secs show ?thesis by simp
qed

text \<open>
  C9. The constructor fails with an invalid-argument error as soon as the vectors
  of some face do not add up to zero, and every flat triangulation it returns has
  all its faces closed.
\<close>

theorem FlatTriangulation_face_closure:
  fixes vs :: "halfedge \<Rightarrow> 'v::ab_group_add"
  shows "((\<exists>e \<in> set hes. vs e + vs (nf e) + vs (nf (nf e)) \<noteq> 0)
            \<longrightarrow> FlatTriangulation hes nf vs = Inl InvalidArgument)
       \<and> (\<forall>t. FlatTriangulation hes nf vs = Inr t
            \<longrightarrow> (\<forall>e \<in> set (flat_halfEdges t).
                   flat_vectors t e + flat_vectors t (flat_nextInFace t e)
                     + flat_vectors t (flat_nextInFace t (flat_nextInFace t e)) = 0))"
proof -
  have "faces_closed nf vs hes = Inl InvalidArgument"
    if "\<exists>e \<in> set hes. vs e + vs (nf e) + vs (nf (nf e)) \<noteq> 0"
    using that faces_closed_cases [of nf vs hes] faces_closed_Inr_iff [of nf vs hes] by auto
  moreover have "\<forall>e \<in> set hes. vs e + vs (nf e) + vs (nf (nf e)) = 0"
    if "faces_closed nf vs hes = Inr ()"
    using that faces_closed_Inr_iff [of nf vs hes] by simp
  ultimately show ?thesis
    by (auto simp: FlatTriangulation_def split: sum.splits)
qed

theorem FlatTriangulation_face_closure_witness:
  "(1, 0::int) + (torus_nextInFace 1, 0) + (torus_nextInFace (torus_nextInFace 1), 0) \<noteq> (0::int \<times> int)
   \<and> FlatTriangulation torus_halfEdges torus_nextInFace (\<lambda>e. (e, 0::int)) = Inl InvalidArgument
   \<and> FlatTriangulation torus_halfEdges torus_nextInFace square_vectors
       = Inr \<lparr>flat_halfEdges = torus_halfEdges, flat_nextInFace = torus_nextInFace,
              flat_vectors = square_vectors\<rparr>
   \<and> square_vectors (- 1) + square_vectors (torus_nextInFace (- 1))
        + square_vectors (torus_nextInFace (torus_nextInFace (- 1))) = 0"
proof -
  have bad1: "(1, 0::int) + (torus_nextInFace 1, 0) + (torus_nextInFace (torus_nextInFace 1), 0)
      \<noteq> (0::int \<times> int)"
    by (simp add: torus_nextInFace_def zero_prod_def)
  then have bad: "\<exists>e \<in> set torus_halfEdges.
      (e, 0::int) + (torus_nextInFace e, 0) + (torus_nextInFace (torus_nextInFace e), 0) \<noteq> 0"
    by (simp add: torus_halfEdges_def)
  have good: "FlatTriangulation torus_halfEdges torus_nextInFace square_vectors
       = Inr \<lparr>flat_halfEdges = torus_halfEdges, flat_nextInFace = torus_nextInFace,
              flat_vectors = square_vectors\<rparr>"
    by (simp add: FlatTriangulation_def torus_halfEdges_def square_vectors_def
        torus_nextInFace_def Let_def zero_prod_def)
  have mem: "- 1 \<in> set torus_halfEdges"
    by (simp add: torus_halfEdges_def)
  show ?thesis
    using bad1 bad good mem
      FlatTriangulation_face_closure [of torus_halfEdges "\<lambda>e. (e, 0::int)" torus_nextInFace]
      FlatTriangulation_face_closure [of torus_halfEdges square_vectors torus_nextInFace]
    by simp
qed

subsection \<open>The flip hook of the collapsed triangulation\<close>

text \<open>
  C2. The flip hook of the collapsed triangulation, whenever it returns: with
  \<open>a, b, c, d\<close> the neighbours of the flipped half edge \<open>e\<close> in the new faces
  \<open>(a -e d)(c e b)\<close>, the connections hidden in \<open>e\<close> have been added in order
  onto the vector of \<open>b\<close> and those hidden in \<open>-e\<close> onto the vector of \<open>d\<close>;
  the list of \<open>e\<close> has been moved behind that of \<open>-b\<close> and the list of \<open>-e\<close>
  behind that of \<open>-d\<close>, leaving both empty; the vector of \<open>e\<close> is the sum of
  those of \<open>d\<close> and \<open>a\<close>, the vector of \<open>-e\<close> is its negation and equals the
  sum of the vectors of \<open>b\<close> and \<open>c\<close>. The half edges \<open>e, -e, b, d\<close> are
  distinct and \<open>a, c\<close> differ from \<open>e\<close> and \<open>-e\<close>, as in every triangulation.
\<close>

theorem updateAfterFlip_update:
  assumes ok: "updateAfterFlip env s e = Inr s'"
    and nb: "a = previousInFace s (- e)" "b = nextInFace s e"
            "c = previousInFace s e" "d = nextInFace s (- e)"
    and dist: "distinct [e, - e, b, d]" "a \<notin> {e, - e}" "c \<notin> {e, - e}"
  shows "vectors s' b = foldl (sum_connection env) (vectors s b) (collapsedHalfEdges s e)
       \<and> vectors s' d = foldl (sum_connection env) (vectors s d) (collapsedHalfEdges s (- e))
       \<and> collapsedHalfEdges s' (- b) = collapsedHalfEdges s (- b) @ collapsedHalfEdges s e
       \<and> collapsedHalfEdges s' (- d) = collapsedHalfEdges s (- d) @ collapsedHalfEdges s (- e)
       \<and> collapsedHalfEdges s' e = [] \<and> collapsedHalfEdges s' (- e) = []
       \<and> vectors s' e = sum_connection env (vectors s' d) (vectors s' a)
       \<and> vectors s' (- e) = neg env (vectors s' e)
       \<and> vectors s' (- e) = sum_connection env (vectors s' b) (vectors s' c)"
proof -
  let ?H = "collapsedHalfEdges s" and ?V = "vectors s"
  let ?V2 = "(?V)(b := foldl (sum_connection env) (?V b) (?H e),
                  d := foldl (sum_connection env) (?V d) (?H (- e)))"
  have ne: "- b \<noteq> e" "- b \<noteq> - e" "- d \<noteq> e" "- d \<noteq> - e" "- b \<noteq> - d" "e \<noteq> - e"
           "b \<noteq> e" "b \<noteq> - e" "d \<noteq> e" "d \<noteq> - e" "b \<noteq> d" "- e \<noteq> e"
           "a \<noteq> e" "a \<noteq> - e" "c \<noteq> e" "c \<noteq> - e"
    using dist by auto
  from ok have res:
    "vectors s' = (?V2)(e := sum_connection env (?V2 d) (?V2 a),
                        - e := neg env (sum_connection env (?V2 d) (?V2 a)))"
    "collapsedHalfEdges s' = (?H)(- b := ?H (- b) @ ?H e, e := [],
                                 - d := ?H (- d) @ ?H (- e), - e := [])"
    "vectors s' (- e) = sum_connection env (vectors s' b) (vectors s' c)"
    using ne unfolding updateAfterFlip_def handleFlip_def Let_def nb[symmetric]
    by (auto simp: extend_vector_vectors extend_vector_other set_vector_def splice_end_def
             split: if_splits)
  show ?thesis
    using ne res(3) by (simp add: res(1,2))
qed

theorem updateAfterFlip_update_witness:
  "updateAfterFlip squares_env flipped_squares 5
     = Inr (projr (updateAfterFlip squares_env flipped_squares 5))
   \<and> - 1 = previousInFace flipped_squares (- 5) \<and> - 3 = nextInFace flipped_squares 5
   \<and> 1 = previousInFace flipped_squares 5 \<and> 4 = nextInFace flipped_squares (- 5)
   \<and> distinct [5, - 5, - 3, 4 :: int] \<and> (- 1 :: int) \<notin> {5, - 5} \<and> (1 :: int) \<notin> {5, - 5}
   \<and> collapsedHalfEdges (projr (updateAfterFlip squares_env flipped_squares 5)) (- (- 3))
       = collapsedHalfEdges flipped_squares (- (- 3)) @ collapsedHalfEdges flipped_squares 5
   \<and> vectors (projr (updateAfterFlip squares_env flipped_squares 5)) (- 5)
       = sum_connection squares_env
           (vectors (projr (updateAfterFlip squares_env flipped_squares 5)) (- 3))
           (vectors (projr (updateAfterFlip squares_env flipped_squares 5)) 1)
   \<and> vectors (projr (updateAfterFlip squares_env flipped_squares 5)) (- 3) = (0, 0)
   \<and> collapsedHalfEdges (projr (updateAfterFlip squares_env flipped_squares 5)) 3 = [(0, 1)]
   \<and> vectors (projr (updateAfterFlip squares_env flipped_squares 5)) (- 5) = (1, 0)"
proof -
  have "isl (updateAfterFlip squares_env flipped_squares 5) = False"
    by code_simp
  then have ok: "updateAfterFlip squares_env flipped_squares 5
     = Inr (projr (updateAfterFlip squares_env flipped_squares 5))"
    by (rule Inr_projr)
  have nb: "- 1 = previousInFace flipped_squares (- 5)" "- 3 = nextInFace flipped_squares 5"
      "1 = previousInFace flipped_squares 5" "4 = nextInFace flipped_squares (- 5)"
    by code_simp+
  have d: "distinct [5, - 5, - 3, 4 :: int]" "(- 1 :: int) \<notin> {5, - 5}" "(1 :: int) \<notin> {5, - 5}"
    by simp_all
  have vals: "vectors (projr (updateAfterFlip squares_env flipped_squares 5)) (- 3) = (0, 0)"
      "collapsedHalfEdges (projr (updateAfterFlip squares_env flipped_squares 5)) 3 = [(0, 1)]"
      "vectors (projr (updateAfterFlip squares_env flipped_squares 5)) (- 5) = (1, 0)"
    by code_simp+
  from updateAfterFlip_update [OF ok nb d] ok nb d vals show ?thesis
    by blast
qed

subsection \<open>Hidden connections of opposite half edges\<close>




subsection \<open>The case distinction of the collapse\<close>

text \<open>
  C4. Let \<open>k\<close> be a vertical half edge with the faces \<open>(a -k d)(c k b)\<close> in a
  surface whose face permutation has \<open>previousInFace\<close> as inverse, whose faces
  at \<open>k\<close> and \<open>-k\<close> are triangles, closed in the perpendicular direction and
  of the same orientation (the perpendicular components of \<open>a\<close> and \<open>b\<close> have
  the same sign), and whose perpendicular components are odd under \<open>e \<mapsto> -e\<close>.
  If none of \<open>a = -c\<close>, \<open>b = -d\<close>, \<open>a = -d\<close>, \<open>b = -c\<close> holds, the eight
  half edges \<open>a, b, c, d, -a, -b, -c, -d\<close> are pairwise distinct, so the assertion
  of the last case never fails.
\<close>

theorem collapse_gadget_distinct:
  fixes env :: "('c, 'v, 'w, 'r::linordered_idom) collaborators"
  assumes nb: "a = previousInFace s (- k)" "b = nextInFace s k"
              "c = previousInFace s k" "d = nextInFace s (- k)"
    and inv: "\<And>e. nextInFace s (previousInFace s e) = e"
    and tri: "nextInFace s (nextInFace s (nextInFace s k)) = k"
             "nextInFace s (nextInFace s (nextInFace s (- k))) = - k"
    and nz: "a \<noteq> 0" "b \<noteq> 0" "c \<noteq> 0" "d \<noteq> 0"
    and odd: "\<And>e. perpendicular env (vectors s (- e)) = - perpendicular env (vectors s e)"
    and vert: "perpendicular env (vectors s k) = 0"
    and closed: "perpendicular env (vectors s a) + perpendicular env (vectors s (- k))
                   + perpendicular env (vectors s d) = 0"
                "perpendicular env (vectors s c) + perpendicular env (vectors s k)
                   + perpendicular env (vectors s b) = 0"
    and orient: "0 < perpendicular env (vectors s a) * perpendicular env (vectors s b)"
    and none: "a \<noteq> - c" "b \<noteq> - d" "a \<noteq> - d" "b \<noteq> - c"
  shows "distinct [a, b, c, d, - a, - b, - c, - d]
         \<and> (\<forall>s2. collapse_cases env s2 a b c d \<noteq> Inl InvariantViolated)"
proof -
  let ?p = "\<lambda>e. perpendicular env (vectors s e)"
  have vk: "?p (- k) = 0" using odd[of k] vert by simp
  have pd: "?p d = - ?p a" using closed(1) vk by (simp add: add_eq_0_iff)
  have pc: "?p c = - ?p b" using closed(2) vert by (simp add: add_eq_0_iff2)
  have sgn: "(0 < ?p a \<and> 0 < ?p b) \<or> (?p a < 0 \<and> ?p b < 0)"
    using orient by (simp add: zero_less_mult_iff)
  have ab: "a \<noteq> b"
  proof
    assume e: "a = b"
    have "nextInFace s a = - k" using nb(1) inv by simp
    then have "nextInFace s (nextInFace s k) = - k" using e nb(2) by simp
    then have "d = k" using tri(1) nb(4) by simp
    then have "?p a = 0" using pd vert by simp
    then show False using sgn by simp
  qed
  have cd: "c \<noteq> d"
  proof
    assume e: "c = d"
    have "nextInFace s c = k" using nb(3) inv by simp
    then have "nextInFace s (nextInFace s (- k)) = k" using e nb(4) by simp
    then have "b = - k" using tri(2) nb(2) by simp
    then have "?p b = 0" using vk by simp
    then show False using sgn by simp
  qed
  have ac: "a \<noteq> c" using pc sgn by auto
  have ad: "a \<noteq> d" using pd sgn by auto
  have bc: "b \<noteq> c" using pc sgn by auto
  have bd: "b \<noteq> d" using pd sgn by auto
  have amb: "a \<noteq> - b" using odd[of b] sgn by auto
  have cmd: "c \<noteq> - d" using odd[of d] pc pd sgn by auto
  have dist: "distinct [a, b, c, d, - a, - b, - c, - d]"
    using ab cd ac ad bc bd amb cmd nz none by auto
  have "collapse_cases env s2 a b c d \<noteq> Inl InvariantViolated" for s2 :: "'c collapsed"
    unfolding collapse_cases_def Let_def using dist by (simp only: if_not_P if_P split: if_split) auto
  with dist show ?thesis by blast
qed

lemma squares_inverse: "nextInFace two_squares (previousInFace two_squares e) = e"
  by (simp add: two_squares_def initial_collapsed_def squares_nextInFace_def squares_previousInFace_def)

lemma squares_odd:
  "perpendicular squares_env (vectors two_squares (- e)) = - perpendicular squares_env (vectors two_squares e)"
  by (simp add: two_squares_def initial_collapsed_def squares_env_def vertical_collaborators_def
      squares_vectors_def)

theorem collapse_gadget_distinct_witness:
  "- 1 = previousInFace two_squares (- 3) \<and> - 6 = nextInFace two_squares 3
   \<and> 2 = previousInFace two_squares 3 \<and> 5 = nextInFace two_squares (- 3)
   \<and> nextInFace two_squares (nextInFace two_squares (nextInFace two_squares 3)) = 3
   \<and> nextInFace two_squares (nextInFace two_squares (nextInFace two_squares (- 3))) = - 3
   \<and> perpendicular squares_env (vectors two_squares 3) = 0
   \<and> 0 < perpendicular squares_env (vectors two_squares (- 1))
         * perpendicular squares_env (vectors two_squares (- 6))
   \<and> distinct [- 1, - 6, 2, 5, - (- 1), - (- 6), - 2, - 5 :: int]
   \<and> collapse_cases squares_env two_squares (- 1) (- 6) 2 5 \<noteq> Inl InvariantViolated"
proof -
  have nb: "- 1 = previousInFace two_squares (- 3)" "- 6 = nextInFace two_squares 3"
      "2 = previousInFace two_squares 3" "5 = nextInFace two_squares (- 3)"
    by code_simp+
  have tri: "nextInFace two_squares (nextInFace two_squares (nextInFace two_squares 3)) = 3"
      "nextInFace two_squares (nextInFace two_squares (nextInFace two_squares (- 3))) = - 3"
    by code_simp+
  have nz: "(- 1 :: int) \<noteq> 0" "(- 6 :: int) \<noteq> 0" "(2 :: int) \<noteq> 0" "(5 :: int) \<noteq> 0"
    by simp_all
  have vert: "perpendicular squares_env (vectors two_squares 3) = 0"
    by code_simp
  have closed:
    "perpendicular squares_env (vectors two_squares (- 1))
       + perpendicular squares_env (vectors two_squares (- 3))
       + perpendicular squares_env (vectors two_squares 5) = 0"
    "perpendicular squares_env (vectors two_squares 2)
       + perpendicular squares_env (vectors two_squares 3)
       + perpendicular squares_env (vectors two_squares (- 6)) = 0"
    by code_simp+
  have orient: "0 < perpendicular squares_env (vectors two_squares (- 1))
         * perpendicular squares_env (vectors two_squares (- 6))"
    by code_simp
  have none: "(- 1 :: int) \<noteq> - 2" "(- 6 :: int) \<noteq> - 5" "(- 1 :: int) \<noteq> - 5" "(- 6 :: int) \<noteq> - 2"
    by simp_all
  from collapse_gadget_distinct [of "- 1" two_squares 3 "- 6" 2 5 squares_env,
      OF nb squares_inverse tri nz squares_odd vert closed orient none]
    nb tri vert orient
  show ?thesis by blast
qed

subsection \<open>Flip, collapse and make\<close>

text \<open>
  C7. \<^verbatim>\<open>flip\<close> fails with an invalid-argument error unless the half edge is
  large, and unless the faces of \<open>e\<close> and \<open>-e\<close> are triangles; when both hold
  the combinatorial flip of the suitably oriented half edge is carried out.
\<close>

theorem flip_preconditions:
  "(\<not> large env self e \<longrightarrow> flip env self e = Inl InvalidArgument)
   \<and> (\<not> (nextInFace self (nextInFace self (nextInFace self e)) = e
          \<and> nextInFace self (nextInFace self (nextInFace self (- e))) = - e)
        \<longrightarrow> flip env self e = Inl InvalidArgument)
   \<and> (large env self e
        \<and> nextInFace self (nextInFace self (nextInFace self e)) = e
        \<and> nextInFace self (nextInFace self (nextInFace self (- e))) = - e
      \<longrightarrow> flip env self e =
          (case FlatTriangulationCombinatorial_flip env self
                  (if perpendicular env (vectors self e) < 0 then - e else e) of
             Inl err \<Rightarrow> Inl err
           | Inr s1 \<Rightarrow>
               (case (if parallel env s1 (if perpendicular env (vectors self e) < 0 then - e else e)
                      then collapse env s1 (if perpendicular env (vectors self e) < 0 then - e else e)
                      else Inr s1) of
                  Inl err \<Rightarrow> Inl err
                | Inr s2 \<Rightarrow> (case check env s2 of Inl err \<Rightarrow> Inl err | Inr _ \<Rightarrow> Inr s2))))"
  by (simp add: flip_def Let_def)

theorem flip_preconditions_witness:
  "\<not> large sheared_env sheared_torus 1
   \<and> flip sheared_env sheared_torus 1 = Inl InvalidArgument
   \<and> \<not> (nextInFace (single_pair sheared_torus 3)
           (nextInFace (single_pair sheared_torus 3) (nextInFace (single_pair sheared_torus 3) 1)) = 1
        \<and> nextInFace (single_pair sheared_torus 3)
           (nextInFace (single_pair sheared_torus 3) (nextInFace (single_pair sheared_torus 3) (- 1))) = - 1)
   \<and> flip sheared_env (single_pair sheared_torus 3) 1 = Inl InvalidArgument
   \<and> large sheared_env sheared_torus 3
   \<and> nextInFace sheared_torus (nextInFace sheared_torus (nextInFace sheared_torus 3)) = 3
   \<and> nextInFace sheared_torus (nextInFace sheared_torus (nextInFace sheared_torus (- 3))) = - 3
   \<and> isl (flip sheared_env sheared_torus 3) = False"
proof -
  have a: "\<not> large sheared_env sheared_torus 1"
    by code_simp
  have b: "\<not> (nextInFace (single_pair sheared_torus 3)
           (nextInFace (single_pair sheared_torus 3) (nextInFace (single_pair sheared_torus 3) 1)) = 1
        \<and> nextInFace (single_pair sheared_torus 3)
           (nextInFace (single_pair sheared_torus 3) (nextInFace (single_pair sheared_torus 3) (- 1))) = - 1)"
    by code_simp
  have c: "large sheared_env sheared_torus 3"
      "nextInFace sheared_torus (nextInFace sheared_torus (nextInFace sheared_torus 3)) = 3"
      "nextInFace sheared_torus (nextInFace sheared_torus (nextInFace sheared_torus (- 3))) = - 3"
    by code_simp+
  have d: "isl (flip sheared_env sheared_torus 3) = False"
    by code_simp
  from flip_preconditions [of sheared_env sheared_torus 1]
    flip_preconditions [of sheared_env "single_pair sheared_torus 3" 1]
    flip_preconditions [of sheared_env sheared_torus 3] a b c d
  show ?thesis by blast
qed

lemma foldl_not_vertical:
  assumes "\<forall>v c. \<not> P v \<and> P c \<longrightarrow> \<not> P (sum_connection env v c)"
  shows "\<not> P v \<Longrightarrow> list_all P cs \<Longrightarrow> \<not> P (foldl (sum_connection env) v cs)"
  using assms by (induction cs arbitrary: v) auto

lemma updateAfterFlip_vertical:
  assumes vp: "vertical_predicate env P"
    and hv: "hidden_vertical P s"
    and ok: "updateAfterFlip env s e = Inr s'"
  shows "halfEdges s' = halfEdges s" "nextInFace s' = nextInFace s"
    "previousInFace s' = previousInFace s" "hidden_vertical P s'"
    "P (vectors s' (- e)) = P (vectors s' e)"
    "\<forall>x. x \<noteq> e \<and> x \<noteq> - e \<and> \<not> P (vectors s x) \<longrightarrow> \<not> P (vectors s' x)"
proof -
  let ?b = "nextInFace s e" and ?d = "nextInFace s (- e)" and ?a = "previousInFace s (- e)"
  let ?H = "collapsedHalfEdges s"
  let ?s2 = "extend_vector env (extend_vector env s ?b (?H e)) ?d (?H (- e))"
  have sumP: "\<forall>v c. \<not> P v \<and> P c \<longrightarrow> \<not> P (sum_connection env v c)"
    using vp by (simp add: vertical_predicate_def)
  have lists: "list_all P (?H x)" for x
    using hv by (simp add: hidden_vertical_def)
  have v2: "\<not> P (vectors ?s2 x)" if "\<not> P (vectors s x)" for x
    using that foldl_not_vertical [OF sumP] lists
    by (auto simp: extend_vector_vectors extend_vector_other)
  from ok have res:
    "vectors s' = (vectors ?s2)(e := sum_connection env (vectors ?s2 ?d) (vectors ?s2 ?a),
         - e := neg env (((vectors ?s2)(e := sum_connection env (vectors ?s2 ?d) (vectors ?s2 ?a))) e))"
    "collapsedHalfEdges s' = collapsedHalfEdges (splice_end (splice_end ?s2 (- ?b) e) (- ?d) (- e))"
    "halfEdges s' = halfEdges s" "nextInFace s' = nextInFace s" "previousInFace s' = previousInFace s"
    unfolding updateAfterFlip_def handleFlip_def Let_def
    by (auto simp: extend_vector_other set_vector_def splice_end_def split: if_splits)
  show "halfEdges s' = halfEdges s" "nextInFace s' = nextInFace s"
    "previousInFace s' = previousInFace s"
    using res by simp_all
  show "hidden_vertical P s'"
    using lists unfolding hidden_vertical_def res(2)
    by (auto simp: splice_end_def extend_vector_other)
  have negP: "P (neg env c) = P c" for c
    using vp by (simp add: vertical_predicate_def)
  show "P (vectors s' (- e)) = P (vectors s' e)"
    unfolding res(1) by (cases "e = - e") (auto simp: negP)
  show "\<forall>x. x \<noteq> e \<and> x \<noteq> - e \<and> \<not> P (vectors s x) \<longrightarrow> \<not> P (vectors s' x)"
    unfolding res(1) using v2 by auto
qed

lemma hook_invariant_set_from:
  "hook_invariant P X hes s \<Longrightarrow> src \<in> X \<Longrightarrow> hook_invariant P X hes (set_from s tgt src)"
  by (auto simp: hook_invariant_def set_from_def hidden_vertical_def)

lemma hook_invariant_set_neg:
  "hook_invariant P X hes s \<Longrightarrow> y \<in> X \<Longrightarrow> (\<And>c. P (neg env c) = P c)
     \<Longrightarrow> hook_invariant P X hes (set_vector s tgt (neg env (vectors s y)))"
  by (auto simp: hook_invariant_def set_vector_def hidden_vertical_def)

lemma hook_invariant_splice_end:
  "hook_invariant P X hes s \<Longrightarrow> hook_invariant P X hes (splice_end s tgt src)"
  by (auto simp: hook_invariant_def splice_end_def hidden_vertical_def)

lemma hook_invariant_splice_begin:
  "hook_invariant P X hes s \<Longrightarrow> hook_invariant P X hes (splice_begin s tgt src)"
  by (auto simp: hook_invariant_def splice_begin_def hidden_vertical_def)

lemma hook_invariant_push_front:
  "hook_invariant P X hes s \<Longrightarrow> P c \<Longrightarrow> hook_invariant P X hes (push_front s x c)"
  by (auto simp: hook_invariant_def push_front_def hidden_vertical_def)

lemmas hook_invariant_steps = hook_invariant_set_from hook_invariant_set_neg
  hook_invariant_splice_end hook_invariant_splice_begin

lemma collapse_cases_invariant:
  assumes inv: "hook_invariant P X hes s"
    and negP: "\<And>c. P (neg env c) = P c"
    and nb: "a \<in> X" "b \<in> X" "c \<in> X" "d \<in> X" "- a \<in> X" "- b \<in> X" "- c \<in> X" "- d \<in> X"
    and ok: "collapse_cases env s a b c d = Inr s'"
  shows "hook_invariant P X hes s'"
proof -
  note st = hook_invariant_steps
  consider (1) "a = - c \<and> b = - d" | (2) "\<not> (a = - c \<and> b = - d)" "a = - c"
    | (3) "a \<noteq> - c" "b = - d" | (4) "a \<noteq> - c" "b \<noteq> - d" "a = - d \<or> b = - c"
    | (5) "a \<noteq> - c" "b \<noteq> - d" "a \<noteq> - d" "b \<noteq> - c"
    by blast
  then show ?thesis
  proof cases
    case 1
    with ok have "s' = set_from (set_from (splice_begin (splice_end
        (set_vector s (- a) (neg env (vectors s a))) a b) (- a) (- b)) b a) (- b) (- a)"
      by (simp add: collapse_cases_def Let_def)
    then show ?thesis using inv nb negP by (simp add: st)
  next
    case 2
    with ok have "s' = set_from (set_from (set_from (set_from (splice_end (splice_end (splice_end
        (splice_end s (- b) c) (- b) d) (- d) a) (- d) b) a (- d)) b (- d)) c (- b)) d (- b)"
      by (simp add: collapse_cases_def Let_def)
    then show ?thesis using inv nb by (simp add: st)
  next
    case 3
    with ok have "s' = set_from (set_from (set_from (set_from (splice_end (splice_end (splice_end
        (splice_end s (- a) d) (- a) c) (- c) b) (- c) a) a (- c)) b (- c)) c (- a)) d (- a)"
      by (simp add: collapse_cases_def Let_def)
    then show ?thesis using inv nb by (simp add: st)
  next
    case 4
    let ?s1 = "if a = - d then set_vector s (- a) (neg env (vectors s a))
               else set_from (set_from (splice_end (splice_end s (- a) d) (- d) a) a (- d)) d (- a)"
    have i1: "hook_invariant P X hes ?s1"
      using inv nb negP by (simp add: st)
    from 4 ok have "s' = (if b = - c then set_vector ?s1 (- b) (neg env (vectors ?s1 b))
        else set_from (set_from (splice_end (splice_end ?s1 (- b) c) (- c) b) b (- c)) c (- b))"
      by (simp add: collapse_cases_def Let_def)
    then show ?thesis using i1 nb negP by (simp add: st)
  next
    case 5
    with ok have "s' = set_from (set_from (set_from (set_from (splice_end (splice_end (splice_end
        (splice_end s (- a) d) (- b) c) (- c) b) (- d) a) a (- d)) b (- c)) c (- b)) d (- a)"
      by (simp add: collapse_cases_def Let_def split: if_splits)
    then show ?thesis using inv nb by (simp add: st)
  qed
qed

lemma updateBeforeCollapse_invariant:
  fixes env :: "('c, 'v, 'w, 'r::linordered_idom) collaborators"
  assumes par: "\<And>s e. parallel env s e = P (vectors s e)"
    and negP: "\<And>c. P (neg env c) = P c"
    and inv: "hook_invariant P X hes s"
    and nb: "list_all (\<lambda>n. n \<in> X \<and> - n \<in> X)
               [nextInFace s e, previousInFace s e, nextInFace s (- e), previousInFace s (- e)]"
    and ok: "updateBeforeCollapse env s e = Inr s'"
  shows "hook_invariant P X hes s'"
proof -
  define k where "k = (if parallel_component env (vectors s \<bar>e\<bar>) < 0 then - \<bar>e\<bar> else \<bar>e\<bar>)"
  have ke: "k = e \<or> k = - e"
    by (auto simp: k_def abs_if)
  define a b c d where "a = previousInFace s (- k)" and "b = nextInFace s k"
    and "c = previousInFace s k" and "d = nextInFace s (- k)"
  have X: "a \<in> X" "b \<in> X" "c \<in> X" "d \<in> X" "- a \<in> X" "- b \<in> X" "- c \<in> X" "- d \<in> X"
    using nb ke by (auto simp: a_def b_def c_def d_def)
  from ok have p: "P (vectors s \<bar>e\<bar>)"
    by (auto simp: updateBeforeCollapse_def handleCollapse_def Let_def par split: if_splits)
  from ok have body:
    "neg env (vectors s k) = vectors s (- k)"
    "\<exists>s3. collapse_cases env (push_front (push_front s b (vectors s k)) d (neg env (vectors s k))) a b c d
        = Inr s3 \<and> s' = s3"
    unfolding updateBeforeCollapse_def handleCollapse_def Let_def k_def [symmetric]
      a_def [symmetric] b_def [symmetric] c_def [symmetric] d_def [symmetric]
    by (auto split: if_splits sum.splits)
  have pk: "P (vectors s k)"
  proof (cases "k = \<bar>e\<bar>")
    case True
    with p show ?thesis by simp
  next
    case False
    then have "- k = \<bar>e\<bar>" by (auto simp: k_def split: if_splits)
    with p body(1) have "P (neg env (vectors s k))" by simp
    then show ?thesis by (simp add: negP)
  qed
  have "hook_invariant P X hes (push_front (push_front s b (vectors s k)) d (neg env (vectors s k)))"
    using inv pk by (simp add: hook_invariant_push_front negP)
  from collapse_cases_invariant [OF this negP X] body(2) show ?thesis
    by blast
qed

lemma collapse_no_vertical:
  fixes env :: "('c, 'v::ab_group_add, 'w::ab_group_add, 'r::linordered_idom) collaborators"
  assumes vp: "vertical_predicate env P"
    and cc: "combinatorial_contract env P"
    and hv: "hidden_vertical P s"
    and others: "\<forall>x \<in> set (halfEdges s). x \<noteq> e \<and> x \<noteq> - e \<longrightarrow> \<not> P (vectors s x)"
    and nb: "neighbours_present s e"
    and ok: "collapse env s e = Inr s'"
  shows "no_vertical env s' \<and> hidden_vertical P s'"
proof -
  let ?X = "set (halfEdges s) - {e, - e}"
  let ?s0 = "hidden_updateBeforeCollapse env s e"
  have par: "parallel env t x = P (vectors t x)" for t x
    using vp by (simp add: vertical_predicate_def)
  have negP: "P (neg env c) = P c" for c
    using vp by (simp add: vertical_predicate_def)
  from cc have h0: "halfEdges ?s0 = halfEdges s" "nextInFace ?s0 = nextInFace s"
      "previousInFace ?s0 = previousInFace s" "vectors ?s0 = vectors s"
      "hidden_vertical P ?s0"
    using hv by (simp_all add: combinatorial_contract_def)
  have inv0: "hook_invariant P ?X (halfEdges s) ?s0"
    using h0 others by (simp add: hook_invariant_def)
  have nb0: "list_all (\<lambda>n. n \<in> ?X \<and> - n \<in> ?X)
      [nextInFace ?s0 e, previousInFace ?s0 e, nextInFace ?s0 (- e), previousInFace ?s0 (- e)]"
    using nb by (auto simp: neighbours_present_def h0)
  from ok obtain s1 where u: "updateBeforeCollapse env ?s0 e = Inr s1"
    and s': "s' = combinatorial_collapse env s1 e"
    by (auto simp: collapse_def FlatTriangulationCombinatorial_collapse_def split: sum.splits)
  have inv1: "hook_invariant P ?X (halfEdges s) s1"
    using updateBeforeCollapse_invariant [of env P, OF par negP inv0 nb0 u] .
  from cc have surv: "\<forall>x \<in> set (halfEdges s'). \<exists>y \<in> set (halfEdges s1). y \<noteq> e \<and> y \<noteq> - e
      \<and> vectors s' x = vectors s1 y"
    and hid: "hidden_vertical P s1 \<longrightarrow> hidden_vertical P s'"
    unfolding s' by (simp_all add: combinatorial_contract_def)
  have "\<not> P (vectors s' x)" if "x \<in> set (halfEdges s')" for x
  proof -
    from surv that obtain y where "y \<in> set (halfEdges s1)" "y \<noteq> e" "y \<noteq> - e"
      "vectors s' x = vectors s1 y" by blast
    with inv1 show ?thesis by (auto simp: hook_invariant_def)
  qed
  then have "no_vertical env s'"
    by (simp add: no_vertical_def par)
  moreover have "hidden_vertical P s'"
    using hid inv1 by (simp add: hook_invariant_def)
  ultimately show ?thesis by simp
qed

lemma flip_no_vertical:
  fixes env :: "('c, 'v::ab_group_add, 'w::ab_group_add, 'r::linordered_idom) collaborators"
  assumes vp: "vertical_predicate env P"
    and cc: "combinatorial_contract env P"
    and nv: "no_vertical env self"
    and hv: "hidden_vertical P self"
    and e: "e = (if perpendicular env (vectors self e0) < 0 then - e0 else e0)"
    and nb: "neighbours_present (combinatorial_flip env self e) e"
    and ok: "flip env self e0 = Inr s'"
  shows "no_vertical env s' \<and> hidden_vertical P s'"
proof -
  let ?s1 = "combinatorial_flip env self e"
  let ?s2 = "hidden_updateAfterFlip env ?s1 e"
  have par: "parallel env t x = P (vectors t x)" for t x
    using vp by (simp add: vertical_predicate_def)
  from cc have k1: "halfEdges ?s1 = halfEdges self" "vectors ?s1 = vectors self"
      "collapsedHalfEdges ?s1 = collapsedHalfEdges self"
    by (simp_all add: combinatorial_contract_def)
  then have hv1: "hidden_vertical P ?s1"
    using hv by (simp add: hidden_vertical_def)
  from cc have k2: "halfEdges ?s2 = halfEdges ?s1" "nextInFace ?s2 = nextInFace ?s1"
      "previousInFace ?s2 = previousInFace ?s1" "vectors ?s2 = vectors ?s1"
      "hidden_vertical P ?s2"
    using hv1 by (simp_all add: combinatorial_contract_def)
  from ok obtain s3 where u: "updateAfterFlip env ?s2 e = Inr s3"
    and rest: "(if parallel env s3 e then collapse env s3 e else Inr s3) = Inr s'"
    by (auto simp: flip_def Let_def e [symmetric] FlatTriangulationCombinatorial_flip_def
        split: if_splits sum.splits)
  note f = updateAfterFlip_vertical [OF vp k2(5) u]
  have old: "\<not> P (vectors self x)" if "x \<in> set (halfEdges self)" for x
    using nv that by (simp add: no_vertical_def par)
  have others: "\<forall>x \<in> set (halfEdges s3). x \<noteq> e \<and> x \<noteq> - e \<longrightarrow> \<not> P (vectors s3 x)"
    using f(1,6) old by (simp add: k1 k2)
  have nb3: "neighbours_present s3 e"
    using nb by (simp add: neighbours_present_def f k1 k2)
  show ?thesis
  proof (cases "parallel env s3 e")
    case True
    with rest have "collapse env s3 e = Inr s'" by simp
    from collapse_no_vertical [OF vp cc f(4) others nb3 this] show ?thesis .
  next
    case False
    with rest have s': "s' = s3" by simp
    have "\<not> P (vectors s3 e)" using False by (simp add: par)
    then have "\<not> P (vectors s3 (- e))" using f(5) by simp
    with \<open>\<not> P (vectors s3 e)\<close> others have "no_vertical env s3"
      by (auto simp: no_vertical_def par)
    with f(4) s' show ?thesis by simp
  qed
qed

text \<open>
  C8. When \<^verbatim>\<open>make\<close> returns a surface, none of its half edges is parallel to
  the vertical. In \<^verbatim>\<open>flip\<close>, once the combinatorial flip and its hooks have
  returned, the flipped half edge is collapsed at once exactly when it has become
  parallel to the vertical, and the result of that collapse is what is checked and
  returned. With that the property is re-established: if no half edge of the
  surface is vertical and all hidden connections are, the same holds of the
  surface that \<^verbatim>\<open>flip\<close> returns, given that the combinatorial operations
  treat the stores as stated in \<open>combinatorial_contract\<close>.
\<close>

theorem no_vertical_half_edge:
  fixes env :: "('c, 'v::ab_group_add, 'w::ab_group_add, 'r::linordered_idom) collaborators"
  shows
  "(make env hes nf pf = Some (Inr s) \<longrightarrow> (\<forall>e \<in> set (halfEdges s). \<not> parallel env s e))
   \<and> (large env self e0
        \<and> nextInFace self (nextInFace self (nextInFace self e0)) = e0
        \<and> nextInFace self (nextInFace self (nextInFace self (- e0))) = - e0
        \<and> e = (if perpendicular env (vectors self e0) < 0 then - e0 else e0)
        \<and> FlatTriangulationCombinatorial_flip env self e = Inr s1
      \<longrightarrow> (parallel env s1 e \<longrightarrow>
             flip env self e0 =
               (case collapse env s1 e of
                  Inl err \<Rightarrow> Inl err
                | Inr s2 \<Rightarrow> (case check env s2 of Inl err \<Rightarrow> Inl err | Inr _ \<Rightarrow> Inr s2)))
          \<and> (\<not> parallel env s1 e \<longrightarrow>
             flip env self e0 = (case check env s1 of Inl err \<Rightarrow> Inl err | Inr _ \<Rightarrow> Inr s1)))
   \<and> (vertical_predicate env P \<and> combinatorial_contract env P
        \<and> no_vertical env self \<and> hidden_vertical P self
        \<and> e = (if perpendicular env (vectors self e0) < 0 then - e0 else e0)
        \<and> neighbours_present (combinatorial_flip env self e) e
        \<and> flip env self e0 = Inr s'
      \<longrightarrow> no_vertical env s' \<and> hidden_vertical P s')"
proof -
  have "\<forall>e \<in> set (halfEdges s). \<not> parallel env s e" if m: "make env hes nf pf = Some (Inr s)"
  proof -
    from m have "make_loop env (initial_collapsed env hes nf pf) = Some (Inr s)"
      by (auto simp: make_def split: option.splits sum.splits)
    from make_loop_no_parallel [OF this] show ?thesis by simp
  qed
  moreover have "no_vertical env s' \<and> hidden_vertical P s'"
    if "vertical_predicate env P" "combinatorial_contract env P"
      "no_vertical env self" "hidden_vertical P self"
      "e = (if perpendicular env (vectors self e0) < 0 then - e0 else e0)"
      "neighbours_present (combinatorial_flip env self e) e"
      "flip env self e0 = Inr s'"
    using flip_no_vertical [OF that] .
  ultimately show ?thesis
    by (auto simp: flip_def Let_def)
qed

lemma vertical_collaborators_predicate:
  "vertical_predicate (vertical_collaborators vs A) (\<lambda>c. fst c = 0)"
  by (simp add: vertical_predicate_def vertical_collaborators_def sum_connection_def)

lemma single_pair_survivors:
  assumes "x \<in> set (halfEdges (single_pair s e))"
  shows "\<exists>y \<in> set (halfEdges s). y \<noteq> e \<and> y \<noteq> - e \<and> vectors (single_pair s e) x = vectors s y"
proof (cases "filter (\<lambda>x. 0 < x \<and> x \<noteq> e \<and> x \<noteq> - e \<and> - x \<in> set (halfEdges s)) (halfEdges s)")
  case Nil
  with assms show ?thesis by (simp add: single_pair_def)
next
  case (Cons m rest)
  then have "m \<in> set (filter (\<lambda>x. 0 < x \<and> x \<noteq> e \<and> x \<noteq> - e \<and> - x \<in> set (halfEdges s)) (halfEdges s))"
    by simp
  then have m: "m \<in> set (halfEdges s)" "m \<noteq> e" "m \<noteq> - e" "- m \<in> set (halfEdges s)"
    by simp_all
  from m have m': "- m \<noteq> e" "- m \<noteq> - e" by auto
  have v: "vectors (single_pair s e) x = vectors s x"
    using Cons by (simp add: single_pair_def)
  from assms Cons have "x = m \<or> x = - m" by (simp add: single_pair_def)
  then show ?thesis
  proof
    assume "x = m"
    with m v show ?thesis by blast
  next
    assume "x = - m"
    with m m' v show ?thesis by blast
  qed
qed

lemma vertical_collaborators_contract:
  "combinatorial_contract (vertical_collaborators vs A) P"
proof -
  have "hidden_vertical P (single_pair s e)" if "hidden_vertical P s" for s :: "(int \<times> int) collapsed" and e
    using that by (simp add: hidden_vertical_def single_pair_def split: list.splits)
  moreover have "\<forall>x \<in> set (halfEdges (single_pair s e)).
      \<exists>y \<in> set (halfEdges s). y \<noteq> e \<and> y \<noteq> - e \<and> vectors (single_pair s e) x = vectors s y"
    for s :: "(int \<times> int) collapsed" and e
    using single_pair_survivors [of _ s e] by blast
  ultimately show ?thesis
    by (simp add: combinatorial_contract_def vertical_collaborators_def flip_faces_def Let_def)
qed

theorem no_vertical_half_edge_witness:
  "make square_env torus_halfEdges torus_nextInFace torus_previousInFace
     = Some (Inr (projr (the (make square_env torus_halfEdges torus_nextInFace torus_previousInFace))))
   \<and> halfEdges (projr (the (make square_env torus_halfEdges torus_nextInFace torus_previousInFace)))
       = [1, - 1]
   \<and> \<not> parallel square_env
         (projr (the (make square_env torus_halfEdges torus_nextInFace torus_previousInFace))) 1
   \<and> \<not> parallel square_env
         (projr (the (make square_env torus_halfEdges torus_nextInFace torus_previousInFace))) (- 1)
   \<and> large sheared_env sheared_torus 3
   \<and> nextInFace sheared_torus (nextInFace sheared_torus (nextInFace sheared_torus 3)) = 3
   \<and> nextInFace sheared_torus (nextInFace sheared_torus (nextInFace sheared_torus (- 3))) = - 3
   \<and> perpendicular sheared_env (vectors sheared_torus 3) < 0
   \<and> FlatTriangulationCombinatorial_flip sheared_env sheared_torus (- 3)
       = Inr (projr (FlatTriangulationCombinatorial_flip sheared_env sheared_torus (- 3)))
   \<and> parallel sheared_env (projr (FlatTriangulationCombinatorial_flip sheared_env sheared_torus (- 3))) (- 3)
   \<and> flip sheared_env sheared_torus 3 =
       (case collapse sheared_env
               (projr (FlatTriangulationCombinatorial_flip sheared_env sheared_torus (- 3))) (- 3) of
          Inl err \<Rightarrow> Inl err
        | Inr s2 \<Rightarrow> (case check sheared_env s2 of Inl err \<Rightarrow> Inl err | Inr _ \<Rightarrow> Inr s2))
   \<and> vertical_predicate sheared_env (\<lambda>c. fst c = 0)
   \<and> combinatorial_contract sheared_env (\<lambda>c. fst c = 0)
   \<and> no_vertical sheared_env sheared_torus
   \<and> hidden_vertical (\<lambda>c. fst c = 0) sheared_torus
   \<and> neighbours_present (combinatorial_flip sheared_env sheared_torus (- 3)) (- 3)
   \<and> flip sheared_env sheared_torus 3 = Inr (projr (flip sheared_env sheared_torus 3))
   \<and> halfEdges (projr (flip sheared_env sheared_torus 3)) = [1, - 1]
   \<and> no_vertical sheared_env (projr (flip sheared_env sheared_torus 3))
   \<and> hidden_vertical (\<lambda>c. fst c = 0) (projr (flip sheared_env sheared_torus 3))"
proof -
  let ?s = "projr (the (make square_env torus_halfEdges torus_nextInFace torus_previousInFace))"
  let ?P = "\<lambda>c :: int \<times> int. fst c = 0"
  have m: "make square_env torus_halfEdges torus_nextInFace torus_previousInFace = Some (Inr ?s)"
    using square_make_returns by (rule Some_Inr_the)
  have h: "halfEdges ?s = [1, - 1]"
    by code_simp
  have c: "large sheared_env sheared_torus 3"
      "nextInFace sheared_torus (nextInFace sheared_torus (nextInFace sheared_torus 3)) = 3"
      "nextInFace sheared_torus (nextInFace sheared_torus (nextInFace sheared_torus (- 3))) = - 3"
      "perpendicular sheared_env (vectors sheared_torus 3) < 0"
    by code_simp+
  then have e: "(- 3 :: int) = (if perpendicular sheared_env (vectors sheared_torus 3) < 0 then - 3 else 3)"
    by simp
  have "isl (FlatTriangulationCombinatorial_flip sheared_env sheared_torus (- 3)) = False"
    by code_simp
  then have f: "FlatTriangulationCombinatorial_flip sheared_env sheared_torus (- 3)
       = Inr (projr (FlatTriangulationCombinatorial_flip sheared_env sheared_torus (- 3)))"
    by (rule Inr_projr)
  have p: "parallel sheared_env
      (projr (FlatTriangulationCombinatorial_flip sheared_env sheared_torus (- 3))) (- 3)"
    by code_simp
  have "isl (flip sheared_env sheared_torus 3) = False"
    by code_simp
  then have r: "flip sheared_env sheared_torus 3 = Inr (projr (flip sheared_env sheared_torus 3))"
    by (rule Inr_projr)
  have hr: "halfEdges (projr (flip sheared_env sheared_torus 3)) = [1, - 1]"
    by code_simp
  have vp: "vertical_predicate sheared_env ?P"
    unfolding sheared_env_def by (rule vertical_collaborators_predicate)
  have cc: "combinatorial_contract sheared_env ?P"
    unfolding sheared_env_def by (rule vertical_collaborators_contract)
  have nv: "no_vertical sheared_env sheared_torus"
    by code_simp
  have hv: "hidden_vertical ?P sheared_torus"
    by (simp add: hidden_vertical_def sheared_torus_def initial_collapsed_def)
  have nb: "neighbours_present (combinatorial_flip sheared_env sheared_torus (- 3)) (- 3)"
    by code_simp
  from no_vertical_half_edge [where env = square_env and hes = torus_halfEdges
      and nf = torus_nextInFace and pf = torus_previousInFace and s = ?s] m h
  have n: "\<not> parallel square_env ?s 1" "\<not> parallel square_env ?s (- 1)"
    by simp_all
  from no_vertical_half_edge [where env = sheared_env and self = sheared_torus and ?e0.0 = 3
      and e = "- 3" and P = ?P
      and ?s1.0 = "projr (FlatTriangulationCombinatorial_flip sheared_env sheared_torus (- 3))"
      and s' = "projr (flip sheared_env sheared_torus 3)"]
    m h n c e f p r hr vp cc nv hv nb
  show ?thesis by blast
qed

subsection \<open>Sector refinement\<close>

lemma pluecker:
  fixes a b c d :: "'r::comm_ring \<times> 'r"
  shows "cross a b * cross c d - cross a c * cross b d + cross a d * cross b c = 0"
  by (simp add: cross_def algebra_simps)

lemma cross_decompose:
  fixes b v x :: "'r::comm_ring \<times> 'r"
  shows "dot b b * cross v x = dot b v * cross b x - cross b v * dot b x"
    and "dot b b * cross x v = dot b v * cross x b + cross b v * dot b x"
    and "dot b b * dot v x = dot b v * dot b x + cross b v * cross b x"
  by (simp_all add: cross_def dot_def algebra_simps)

lemma dot_self_pos:
  fixes b :: "'r::linordered_idom \<times> 'r"
  shows "b \<noteq> (0, 0) \<Longrightarrow> 0 < dot b b"
  by (cases b) (auto simp: dot_def sum_squares_gt_zero_iff)

lemma cross_self [simp]: "cross b b = 0"
  by (simp add: cross_def algebra_simps)

lemma cross_swap: "cross u v = - cross v u"
  by (simp add: cross_def algebra_simps)

lemma dot_commute: "dot u v = dot v u"
  by (simp add: dot_def mult.commute)

lemma sign_transfer:
  fixes A B X Y :: "'r::linordered_idom"
  assumes "0 < A" "0 < B" "A * X = B * Y"
  shows "(0 < X \<longleftrightarrow> 0 < Y)" "(X < 0 \<longleftrightarrow> Y < 0)" "(X = 0 \<longleftrightarrow> Y = 0)"
proof -
  have "0 < A * X \<longleftrightarrow> 0 < X" "A * X < 0 \<longleftrightarrow> X < 0" "A * X = 0 \<longleftrightarrow> X = 0"
    using assms(1) by (simp_all add: zero_less_mult_iff mult_less_0_iff)
  moreover have "0 < B * Y \<longleftrightarrow> 0 < Y" "B * Y < 0 \<longleftrightarrow> Y < 0" "B * Y = 0 \<longleftrightarrow> Y = 0"
    using assms(2) by (simp_all add: zero_less_mult_iff mult_less_0_iff)
  ultimately show "(0 < X \<longleftrightarrow> 0 < Y)" "(X < 0 \<longleftrightarrow> Y < 0)" "(X = 0 \<longleftrightarrow> Y = 0)"
    using assms(3) by simp_all
qed

lemma sign_flip:
  fixes A B X Y :: "'r::linordered_idom"
  assumes "0 < A" "B < 0" "A * X = B * Y"
  shows "(0 < X \<longleftrightarrow> Y < 0)" "(X < 0 \<longleftrightarrow> 0 < Y)" "(X = 0 \<longleftrightarrow> Y = 0)"
  using sign_transfer [of A "- B" X "- Y"] assms by simp_all

lemma on_ray_nonzero: "on_ray v b \<Longrightarrow> b \<noteq> (0, 0) \<and> v \<noteq> (0, 0)"
  by (auto simp: on_ray_def orientation_def dot_def split: if_splits)

lemma on_ray_facts:
  fixes b v :: "'r::linordered_idom \<times> 'r"
  shows "on_ray v b \<longleftrightarrow> cross b v = 0 \<and> 0 < dot b v"
  by (auto simp: on_ray_def ccw_def orientation_def split: if_splits)

lemma ray_ccw:
  fixes b v x :: "'r::linordered_idom \<times> 'r"
  assumes "on_ray v b"
  shows "ccw v x = ccw b x" "ccw x v = ccw x b"
    "orientation v x = orientation b x" "orientation x v = orientation x b"
proof -
  from assms have z: "cross b v = 0" and p: "0 < dot b v"
    by (simp_all add: on_ray_facts)
  have bb: "0 < dot b b"
    using assms on_ray_nonzero dot_self_pos by blast
  have 1: "dot b b * cross v x = dot b v * cross b x"
    using cross_decompose(1) [of b v x] z by simp
  have 2: "dot b b * cross x v = dot b v * cross x b"
    using cross_decompose(2) [of b x v] z by simp
  have 3: "dot b b * dot v x = dot b v * dot b x"
    using cross_decompose(3) [of b v x] z by simp
  show "ccw v x = ccw b x"
    using sign_transfer [OF bb p 1] by (simp add: ccw_def)
  show "ccw x v = ccw x b"
    using sign_transfer [OF bb p 2] by (simp add: ccw_def)
  show "orientation v x = orientation b x"
    using sign_transfer [OF bb p 3] by (simp add: orientation_def)
  have 4: "dot b b * dot x v = dot b v * dot x b"
    using 3 by (simp add: dot_commute [of x])
  show "orientation x v = orientation x b"
    using sign_transfer [OF bb p 4] by (simp add: orientation_def)
qed

lemma in_interval_ray:
  fixes b v :: "'r::linordered_idom \<times> 'r"
  assumes "on_ray v b"
  shows "in_interval v s t = in_interval b s t"
    "in_interval x v t = in_interval x b t"
    "in_interval x s v = in_interval x s b"
  unfolding in_interval_def ray_ccw [OF assms] by (rule refl)+

lemma in_interval_begin:
  fixes b e :: "'r::linordered_idom \<times> 'r"
  assumes "b \<noteq> (0, 0)" "e \<noteq> (0, 0)"
  shows "in_interval b b e"
proof -
  have bb: "0 < dot b b" using assms(1) by (rule dot_self_pos)
  have ee: "0 < dot e e" using assms(2) by (rule dot_self_pos)
  have "\<not> (cross b e = 0 \<and> dot b e = 0)"
  proof
    assume h: "cross b e = 0 \<and> dot b e = 0"
    have "dot b b * dot e e = dot b e * dot b e + cross b e * cross b e"
      by (simp add: cross_def dot_def algebra_simps)
    with h have "dot b b * dot e e = 0" by simp
    with bb ee show False by simp
  qed
  then show ?thesis
    using bb by (auto simp: in_interval_def ccw_def orientation_def cross_swap [of e b]
        split: CCW.splits ORIENTATION.splits if_splits)
qed

lemma in_interval_end:
  fixes b e :: "'r::linordered_idom \<times> 'r"
  assumes "in_interval e b e"
  shows "on_ray e b"
  using assms
  by (auto simp: in_interval_def on_ray_def ccw_def orientation_def cross_swap [of e b]
      split: CCW.splits ORIENTATION.splits if_splits)

lemma on_ray_sym:
  fixes u v :: "'r::linordered_idom \<times> 'r"
  shows "on_ray u v \<longleftrightarrow> on_ray v u"
  by (auto simp: on_ray_facts dot_commute [of u v] cross_swap [of u v])

lemma opposite_cross:
  fixes b v x :: "'r::linordered_idom \<times> 'r"
  assumes "ccw b v = COLLINEAR" "orientation b v = OPPOSITE"
  shows "0 < cross v x \<longleftrightarrow> cross b x < 0" "cross v x < 0 \<longleftrightarrow> 0 < cross b x"
    "0 < cross x v \<longleftrightarrow> cross x b < 0" "cross x v < 0 \<longleftrightarrow> 0 < cross x b"
    "cross v x = 0 \<longleftrightarrow> cross b x = 0"
proof -
  from assms have z: "cross b v = 0" and n: "dot b v < 0"
    by (auto simp: ccw_def orientation_def split: if_splits)
  then have "b \<noteq> (0, 0)" by (auto simp: dot_def)
  then have bb: "0 < dot b b" by (rule dot_self_pos)
  have 1: "dot b b * cross v x = dot b v * cross b x"
    using cross_decompose(1) [of b v x] z by simp
  have 2: "dot b b * cross x v = dot b v * cross x b"
    using cross_decompose(2) [of b x v] z by simp
  show "0 < cross v x \<longleftrightarrow> cross b x < 0" "cross v x < 0 \<longleftrightarrow> 0 < cross b x"
    "cross v x = 0 \<longleftrightarrow> cross b x = 0"
    using sign_flip [OF bb n 1] by simp_all
  show "0 < cross x v \<longleftrightarrow> cross x b < 0" "cross x v < 0 \<longleftrightarrow> 0 < cross x b"
    using sign_flip [OF bb n 2] by simp_all
qed

lemma opposite_both_ray:
  fixes b v e :: "'r::linordered_idom \<times> 'r"
  assumes "ccw b v = COLLINEAR" "orientation b v = OPPOSITE"
    and "ccw b e = COLLINEAR" "orientation b e = OPPOSITE"
  shows "on_ray v e"
proof -
  from assms have z: "cross b v = 0" "cross b e = 0" and n: "dot b v < 0" "dot b e < 0"
    by (auto simp: ccw_def orientation_def split: if_splits)
  then have "b \<noteq> (0, 0)" by (auto simp: dot_def)
  then have bb: "0 < dot b b" by (rule dot_self_pos)
  have "dot b b * cross e v = 0"
    using cross_decompose(1) [of b e v] z by simp
  with bb have c: "cross e v = 0" by simp
  have "dot b b * dot e v = dot b e * dot b v"
    using cross_decompose(3) [of b e v] z by simp
  moreover have "0 < dot b e * dot b v"
    using n by (simp add: zero_less_mult_iff)
  ultimately have "0 < dot b b * dot e v" by simp
  with bb have "0 < dot e v" by (simp add: zero_less_mult_iff)
  with c show ?thesis by (simp add: on_ray_facts)
qed

lemma in_interval_proper:
  fixes s t x :: "'r::linordered_idom \<times> 'r"
  assumes "ccw s t = COUNTERCLOCKWISE"
  shows "in_interval x s t \<longleftrightarrow> 0 \<le> cross s x \<and> 0 < cross x t"
  using assms by (auto simp: in_interval_def ccw_def split: if_splits)

lemma ccw_iff:
  fixes u v :: "'r::linordered_idom \<times> 'r"
  shows "ccw u v = COUNTERCLOCKWISE \<longleftrightarrow> 0 < cross u v"
    "ccw u v = CLOCKWISE \<longleftrightarrow> cross u v < 0"
    "ccw u v = COLLINEAR \<longleftrightarrow> cross u v = 0"
  by (auto simp: ccw_def)

lemma inSector_nonzero:
  "v \<noteq> (0, 0) \<Longrightarrow> b \<noteq> (0, 0) \<Longrightarrow> e \<noteq> (0, 0) \<Longrightarrow> inSector v b e = Inr (in_interval v b e)"
  by (simp add: inSector_def)

lemma cross_zero_left [simp]: "cross (0, 0) v = 0" and cross_zero_right [simp]: "cross v (0, 0) = 0"
  by (simp_all add: cross_def)

text \<open>The outcomes of \<^verbatim>\<open>refine\<close> on a sector of less than a half turn.\<close>

lemma refine_cases:
  fixes first second b e :: "'r::linordered_idom \<times> 'r"
  assumes bounds: "(case sector_bounds this of Some p \<Rightarrow> p
                    | None \<Rightarrow> (fromEdge (sector_source this), fromEdge (nextAtVertex (sector_source this))))
                   = (first, second)"
    and proper: "ccw first second = COUNTERCLOCKWISE"
    and ref: "refine fromEdge nextAtVertex this b e = Inr ss"
  shows "b \<noteq> (0, 0) \<and> e \<noteq> (0, 0) \<and> first \<noteq> (0, 0) \<and> second \<noteq> (0, 0) \<and>
    (if in_interval b first second then
       (if ccw b e = CLOCKWISE then
          (if ccw first e = COUNTERCLOCKWISE
           then ss = [Sector (sector_source this) b second, Sector (sector_source this) first e]
           else ss = [Sector (sector_source this) b second])
        else if in_interval e first second then ss = [Sector (sector_source this) b e]
        else ss = [Sector (sector_source this) b second])
     else if in_interval e first second \<and> \<not> on_ray first e
       then ss = [Sector (sector_source this) first e]
     else if in_interval first b e then ss = [this] else ss = [])"
proof -
  have nf: "first \<noteq> (0, 0)" "second \<noteq> (0, 0)"
    using proper by (auto simp: ccw_def split: if_splits)
  have nb: "b \<noteq> (0, 0)"
    using ref bounds nf
    by (auto simp: refine_def Let_def inSector_def split: if_splits sum.splits bool.splits)
  have ne: "e \<noteq> (0, 0)"
  proof
    assume z: "e = (0, 0)"
    then have "ccw b e \<noteq> CLOCKWISE" by (simp add: ccw_def)
    with ref bounds nf nb z show False
      by (auto simp: refine_def Let_def inSector_def inSectorExclusive_def
          split: if_splits sum.splits bool.splits)
  qed
  have ex: "inSectorExclusive e first second = Inr (in_interval e first second \<and> \<not> on_ray first e)"
    using nf ne by (simp add: inSectorExclusive_def inSector_def on_ray_def)
  show ?thesis
    using ref bounds nf nb ne
    by (auto simp: refine_def Let_def inSector_nonzero ex split: if_splits bool.splits)
qed

lemma selects_single:
  "v \<noteq> (0, 0) \<Longrightarrow> x \<noteq> (0, 0) \<Longrightarrow> y \<noteq> (0, 0) \<Longrightarrow>
   contains_connection (Sector src x y) src v = Inr True \<longleftrightarrow> in_interval v x y"
  by (simp add: contains_connection_def Sector_def inSector_def)

text \<open>
  C5, as the code has it. Refine a sector that spans less than a half turn (as
  every corner of a triangulation does) by \<open>[begin, end)\<close>, and take a
  connection of that sector. If its vector lies on the ray \<open>begin\<close> it is
  selected afterwards; if it lies on the ray \<open>end\<close> and \<open>end\<close> is not on the
  ray \<open>begin\<close> it is not; if it points opposite to \<open>begin\<close> and \<open>end\<close> is
  not clockwise from \<open>begin\<close> it is not.
\<close>

theorem refine_tie_breaks:
  fixes first second b e v :: "'r::linordered_idom \<times> 'r"
  assumes bounds: "(case sector_bounds this of Some p \<Rightarrow> p
                    | None \<Rightarrow> (fromEdge (sector_source this), fromEdge (nextAtVertex (sector_source this))))
                   = (first, second)"
    and proper: "ccw first second = COUNTERCLOCKWISE"
    and ref: "refine fromEdge nextAtVertex this b e = Inr ss"
    and inS: "in_interval v first second"
  shows "(on_ray v b \<longrightarrow> selects ss (sector_source this) v)
       \<and> (on_ray v e \<and> \<not> on_ray e b \<longrightarrow> \<not> selects ss (sector_source this) v)
       \<and> (ccw b v = COLLINEAR \<and> orientation b v = OPPOSITE \<and> ccw b e \<noteq> CLOCKWISE
            \<longrightarrow> \<not> selects ss (sector_source this) v)"
proof -
  let ?src = "sector_source this"
  note rc = refine_cases [OF bounds proper ref]
  then have nz: "b \<noteq> (0, 0)" "e \<noteq> (0, 0)" "first \<noteq> (0, 0)" "second \<noteq> (0, 0)"
    by simp_all
  have fs: "0 < cross first second"
    using proper by (simp add: ccw_iff)
  have vS: "0 \<le> cross first v" "0 < cross v second"
    using inS in_interval_proper [OF proper] by simp_all
  have nv: "v \<noteq> (0, 0)"
    using vS(2) by auto
  note sel = selects_single [OF nv]
  have A: "selects ss ?src v" if r: "on_ray v b"
  proof -
    have bS: "in_interval b first second"
      using inS in_interval_ray(1) [OF r] by simp
    have "in_interval v b y" if "y \<noteq> (0, 0)" for y
      using in_interval_begin [OF nz(1) that] in_interval_ray(1) [OF r] by simp
    then have "in_interval v b second" "in_interval v b e"
      using nz by simp_all
    then show ?thesis
      using rc bS by (auto simp: selects_def sel nz split: if_splits)
  qed
  have B: "\<not> selects ss ?src v" if r: "on_ray v e" and nr: "\<not> on_ray e b"
  proof -
    have eS: "in_interval e first second"
      using inS in_interval_ray(1) [OF r] by simp
    have n1: "\<not> in_interval v b e"
      using in_interval_end [of e b] nr in_interval_ray(1) [OF r] by auto
    have n2: "\<not> in_interval v first e" if "\<not> on_ray first e"
      using in_interval_end [of e first] that in_interval_ray(1) [OF r] on_ray_sym [of first e] by auto
    have n3: "\<not> in_interval v b second" if "in_interval b first second" "ccw b e = CLOCKWISE"
    proof -
      from that(1) have "0 < cross b second"
        using in_interval_proper [OF proper] by simp
      then have "ccw b second = COUNTERCLOCKWISE" by (simp add: ccw_iff)
      then have "in_interval e b second \<longleftrightarrow> 0 \<le> cross b e \<and> 0 < cross e second"
        by (rule in_interval_proper)
      with that(2) have "\<not> in_interval e b second" by (simp add: ccw_iff)
      then show ?thesis using in_interval_ray(1) [OF r] by simp
    qed
    have n4: "\<not> on_ray first e" if "ccw first e = COUNTERCLOCKWISE"
      using that by (auto simp: on_ray_facts ccw_iff cross_swap [of e first])
    have n5: "\<not> in_interval first b e" if "on_ray first e"
      using in_interval_end [of e b] nr in_interval_ray(1) [OF that] by auto
    show ?thesis
    proof (cases "in_interval b first second")
      case True
      then show ?thesis
        using rc eS n1 n2 n3 n4 by (auto simp: selects_def sel nz split: if_splits)
    next
      case False
      then show ?thesis
        using rc eS n2 n5 by (auto simp: selects_def sel nz split: if_splits)
    qed
  qed
  have C: "\<not> selects ss ?src v"
    if col: "ccw b v = COLLINEAR" and opp: "orientation b v = OPPOSITE" and ncw: "ccw b e \<noteq> CLOCKWISE"
  proof -
    note oc = opposite_cross [OF col opp]
    have bS: "\<not> in_interval b first second"
      using vS(2) oc(1) [of second] in_interval_proper [OF proper, of b] by auto
    have c5: "\<not> in_interval v first e" if eS: "in_interval e first second" and nr: "\<not> on_ray first e"
    proof -
      from eS have e1: "0 \<le> cross first e" "0 < cross e second"
        using in_interval_proper [OF proper] by simp_all
      have "cross first e \<noteq> 0"
      proof
        assume z: "cross first e = 0"
        with nr have d: "dot first e \<le> 0"
          by (auto simp: on_ray_facts cross_swap [of e first] dot_commute [of e first])
        have ff: "0 < dot first first" using nz(3) by (rule dot_self_pos)
        have "dot first first * cross e second = dot first e * cross first second"
          using cross_decompose(1) [of first e second] z by simp
        moreover have "dot first e * cross first second \<le> 0"
          using d fs by (simp add: mult_le_0_iff)
        moreover have "0 < dot first first * cross e second"
          using ff e1(2) by simp
        ultimately show False by simp
      qed
      with e1(1) have "ccw first e = COUNTERCLOCKWISE" by (simp add: ccw_iff)
      then have "in_interval v first e \<longleftrightarrow> 0 \<le> cross first v \<and> 0 < cross v e"
        by (rule in_interval_proper)
      moreover have "\<not> 0 < cross v e"
        using oc(1) [of e] ncw by (simp add: ccw_iff)
      ultimately show ?thesis by simp
    qed
    have c6: False
      if neS: "\<not> (in_interval e first second \<and> \<not> on_ray first e)" and fI: "in_interval first b e"
    proof (cases "ccw b e")
      case CLOCKWISE
      with ncw show False by simp
    next
      case COUNTERCLOCKWISE
      then have be: "0 < cross b e" by (simp add: ccw_iff)
      from fI have f: "0 \<le> cross b first" "0 < cross first e"
        using in_interval_proper [OF COUNTERCLOCKWISE] by simp_all
      have "\<not> on_ray first e"
        using f(2) by (auto simp: on_ray_facts cross_swap [of e first])
      with neS have "\<not> in_interval e first second" by simp
      then have es: "cross e second \<le> 0"
        using in_interval_proper [OF proper, of e] f(2) by auto
      have ve: "cross v e < 0"
        using oc(2) [of e] be by simp
      have p: "cross first v * cross e second - cross first e * cross v second
                 + cross first second * cross v e = 0"
        by (rule pluecker)
      have t1: "cross first v * cross e second \<le> 0"
        using vS(1) es by (simp add: mult_le_0_iff)
      have t2: "0 < cross first e * cross v second"
        using f(2) vS(2) by simp
      have t3: "cross first second * cross v e < 0"
        using fs ve by (simp add: mult_less_0_iff)
      from p t1 t2 t3 show False by linarith
    next
      case COLLINEAR
      have r1: False if "on_ray first b"
      proof -
        have "on_ray b first" using that on_ray_sym by blast
        then have "in_interval b first second = in_interval first first second"
          by (rule in_interval_ray(1))
        with bS in_interval_begin [OF nz(3) nz(4)] show False by simp
      qed
      show False
      proof (cases "orientation b e")
        case SAME
        with COLLINEAR fI have "on_ray first b"
          by (simp add: in_interval_def on_ray_def)
        then show False by (rule r1)
      next
        case OPPOSITE
        with COLLINEAR fI have "ccw b first = COUNTERCLOCKWISE \<or> on_ray first b"
          by (simp add: in_interval_def on_ray_def)
        with r1 have bf: "0 < cross b first"
          by (auto simp: ccw_iff)
        have ve: "on_ray v e"
          using opposite_both_ray [OF col opp COLLINEAR OPPOSITE] .
        then have eS: "in_interval e first second"
          using inS in_interval_ray(1) by blast
        have "\<not> on_ray first e"
        proof
          assume "on_ray first e"
          then have "ccw first b = ccw e b" by (rule ray_ccw(1))
          moreover have "cross e b = 0"
            using COLLINEAR by (simp add: ccw_iff cross_swap [of e b])
          ultimately have "cross first b = 0"
            by (simp add: ccw_def split: if_splits)
          with bf show False by (simp add: cross_swap [of b first])
        qed
        with eS neS show False by simp
      next
        case ORTHOGONAL
        with COLLINEAR fI show False by (simp add: in_interval_def)
      qed
    qed
    show ?thesis
      using rc bS c5 c6 by (auto simp: selects_def sel nz split: if_splits)
  qed
  from A B C show ?thesis by blast
qed

lemma corner_bounds:
  "(case sector_bounds (SectorOf 1) of Some p \<Rightarrow> p
    | None \<Rightarrow> (square_vectors (sector_source (SectorOf 1 :: int sector)),
               square_vectors (torus_nextAtVertex (sector_source (SectorOf 1 :: int sector)))))
   = ((1, 0), (1, 1))"
  by (simp add: SectorOf_def square_vectors_def torus_nextAtVertex_def)

theorem refine_tie_breaks_witness:
  "ccw (1, 0) (1, 1 :: int) = COUNTERCLOCKWISE
   \<and> refine square_vectors torus_nextAtVertex (SectorOf 1) (2, 1) (3, 2) = Inr [Sector 1 (2, 1) (3, 2)]
   \<and> in_interval (4, 2) (1, 0) (1, 1 :: int) \<and> on_ray (4, 2) (2, 1 :: int)
   \<and> selects [Sector 1 (2, 1) (3, 2 :: int)] 1 (4, 2)
   \<and> in_interval (6, 4) (1, 0) (1, 1 :: int) \<and> on_ray (6, 4) (3, 2 :: int)
   \<and> \<not> on_ray (3, 2) (2, 1 :: int)
   \<and> \<not> selects [Sector 1 (2, 1) (3, 2 :: int)] 1 (6, 4)
   \<and> refine square_vectors torus_nextAtVertex (SectorOf 1) (- 2, - 1) (3, 1)
       = Inr [Sector 1 (1, 0) (3, 1)]
   \<and> in_interval (2, 1) (1, 0) (1, 1 :: int)
   \<and> ccw (- 2, - 1) (2, 1 :: int) = COLLINEAR \<and> orientation (- 2, - 1) (2, 1 :: int) = OPPOSITE
   \<and> ccw (- 2, - 1) (3, 1 :: int) \<noteq> CLOCKWISE
   \<and> \<not> selects [Sector 1 (1, 0) (3, 1 :: int)] 1 (2, 1)"
proof -
  have proper: "ccw (1, 0) (1, 1 :: int) = COUNTERCLOCKWISE"
    by code_simp
  have r1: "refine square_vectors torus_nextAtVertex (SectorOf 1) (2, 1) (3, 2)
      = Inr [Sector 1 (2, 1) (3, 2)]"
    by code_simp
  have a: "in_interval (4, 2) (1, 0) (1, 1 :: int)" "on_ray (4, 2) (2, 1 :: int)"
    by code_simp+
  have b: "in_interval (6, 4) (1, 0) (1, 1 :: int)" "on_ray (6, 4) (3, 2 :: int)"
      "\<not> on_ray (3, 2) (2, 1 :: int)"
    by code_simp+
  have r2: "refine square_vectors torus_nextAtVertex (SectorOf 1) (- 2, - 1) (3, 1)
      = Inr [Sector 1 (1, 0) (3, 1)]"
    by code_simp
  have c: "in_interval (2, 1) (1, 0) (1, 1 :: int)"
      "ccw (- 2, - 1) (2, 1 :: int) = COLLINEAR" "orientation (- 2, - 1) (2, 1 :: int) = OPPOSITE"
      "ccw (- 2, - 1) (3, 1 :: int) \<noteq> CLOCKWISE"
    by code_simp+
  have src: "sector_source (SectorOf 1 :: int sector) = 1"
    by (simp add: SectorOf_def)
  from refine_tie_breaks [OF corner_bounds proper r1 a(1)]
    refine_tie_breaks [OF corner_bounds proper r1 b(1)]
    refine_tie_breaks [OF corner_bounds proper r2 c(1)]
    proper r1 r2 a b c
  show ?thesis unfolding src by blast
qed

text \<open>
  The tie-breaks do not hold for every refinement. When \<open>begin\<close> and \<open>end\<close>
  are the same ray, the refined sector is that ray and a connection on \<open>end\<close>
  is selected: the corner of half edge 1 of the unit square, refined by
  \<open>[(2, 1), (2, 1))\<close>, selects the vector \<open>(2, 1)\<close>. When \<open>end\<close> is
  clockwise from \<open>begin\<close>, the interval spans more than a half turn and
  contains the vectors opposite to \<open>begin\<close>: the same corner refined by
  \<open>[(-2, -1), (3, 2))\<close> selects \<open>(2, 1)\<close>.
\<close>

theorem refine_tie_breaks_counterexample:
  "contains_connection (SectorOf 1) 1 (2, 1 :: int) = Inr True
   \<and> refine square_vectors torus_nextAtVertex (SectorOf 1) (2, 1) (2, 1) = Inr [Sector 1 (2, 1) (2, 1)]
   \<and> on_ray (2, 1) (2, 1 :: int)
   \<and> selects [Sector 1 (2, 1) (2, 1 :: int)] 1 (2, 1)
   \<and> refine square_vectors torus_nextAtVertex (SectorOf 1) (- 2, - 1) (3, 2)
       = Inr [Sector 1 (1, 0) (3, 2)]
   \<and> ccw (- 2, - 1) (2, 1 :: int) = COLLINEAR \<and> orientation (- 2, - 1) (2, 1 :: int) = OPPOSITE
   \<and> selects [Sector 1 (1, 0) (3, 2 :: int)] 1 (2, 1)"
  by code_simp

end
